theory Spec2Isabelle
  imports Complex_Main "HOL-Library.Product_Lexorder" "HOL-Library.Multiset"
begin

section \<open>Python values\<close>

text \<open>
  The integration handles untyped data: the decoded JSON body of the HTTP response, and the
  dictionaries that \<^verbatim>\<open>_process_data\<close> builds from it. Both are Python objects, so one
  datatype of Python values serves for both. A dictionary is an association list in which the
  first binding of a key is the one that counts.

  A float is either special or finite. A finite float carries the exact rational it denotes:
  the rounding of binary64 is not modelled, only the overflow at the top of its range.
\<close>

datatype pyfloat = Finite rat | PosInf | NegInf | NaN

datatype pyval =
    PNone
  | PBool bool
  | PInt int
  | PFloat pyfloat
  | PStr string
  | PList "pyval list"
  | PDict "(string \<times> pyval) list"

text \<open>
  The exceptions that the code can meet. \<open>ClientError\<close> stands for
  \<^verbatim>\<open>aiohttp.ClientError\<close> and its subclasses, \<open>OtherException\<close> for any other
  subclass of \<^verbatim>\<open>Exception\<close> raised by the HTTP layer (a timeout, a body that is not JSON).
\<close>

datatype exc =
    ValueError
  | TypeError
  | AttributeError
  | OverflowError
  | KeyError
  | IndexError
  | ClientError
  | OtherException
  | ConfigEntryNotReady

definition pbind :: "exc + 'a \<Rightarrow> ('a \<Rightarrow> exc + 'b) \<Rightarrow> exc + 'b" where
  "pbind m f = (case m of Inl e \<Rightarrow> Inl e | Inr v \<Rightarrow> f v)"

text \<open>Truth value of an object, as \<^verbatim>\<open>if x:\<close> and \<^verbatim>\<open>not x\<close> test it.\<close>

fun truthy :: "pyval \<Rightarrow> bool" where
  "truthy PNone = False"
| "truthy (PBool b) = b"
| "truthy (PInt i) = (i \<noteq> 0)"
| "truthy (PFloat f) = (f \<noteq> Finite 0)"
| "truthy (PStr s) = (s \<noteq> [])"
| "truthy (PList xs) = (xs \<noteq> [])"
| "truthy (PDict kvs) = (kvs \<noteq> [])"

text \<open>\<^verbatim>\<open>d.get(k, default)\<close>: only a dictionary has the method.\<close>

definition dict_get :: "pyval \<Rightarrow> string \<Rightarrow> pyval \<Rightarrow> exc + pyval" where
  "dict_get d k dflt =
     (case d of
        PDict kvs \<Rightarrow> Inr (case map_of kvs k of Some v \<Rightarrow> v | None \<Rightarrow> dflt)
      | _ \<Rightarrow> Inl AttributeError)"

text \<open>\<^verbatim>\<open>d[k]\<close> with a string key.\<close>

definition dict_getitem :: "pyval \<Rightarrow> string \<Rightarrow> exc + pyval" where
  "dict_getitem d k =
     (case d of
        PDict kvs \<Rightarrow> (case map_of kvs k of Some v \<Rightarrow> Inr v | None \<Rightarrow> Inl KeyError)
      | _ \<Rightarrow> Inl TypeError)"

text \<open>\<^verbatim>\<open>xs[i]\<close> on a list, for an index that is not negative.\<close>

definition list_getitem :: "'a list \<Rightarrow> nat \<Rightarrow> exc + 'a" where
  "list_getitem xs i = (if i < length xs then Inr (xs ! i) else Inl IndexError)"

text \<open>What a \<^verbatim>\<open>for\<close> loop iterates over.\<close>

fun py_iter :: "pyval \<Rightarrow> exc + pyval list" where
  "py_iter (PList xs) = Inr xs"
| "py_iter (PStr s) = Inr (map (\<lambda>c. PStr [c]) s)"
| "py_iter (PDict kvs) = Inr (map PStr (remdups (map fst kvs)))"
| "py_iter _ = Inl TypeError"

section \<open>Numbers from text\<close>

text \<open>
  A character is a code point below 256. The white space that \<^verbatim>\<open>int\<close> and
  \<^verbatim>\<open>float\<close> strip from a string: the six of ASCII, and U+0085 and U+00A0.
\<close>

definition is_space :: "char \<Rightarrow> bool" where
  "is_space c =
     (c \<in> set [CHR '' '', CHR 0x09, CHR 0x0A, CHR 0x0B, CHR 0x0C, CHR 0x0D, CHR 0x85, CHR 0xA0])"

definition strip :: "string \<Rightarrow> string" where
  "strip s = rev (dropWhile is_space (rev (dropWhile is_space s)))"

definition is_digit :: "char \<Rightarrow> bool" where
  "is_digit c = (c \<in> set ''0123456789'')"

definition digit_val :: "char \<Rightarrow> nat" where
  "digit_val c = of_char c - of_char CHR ''0''"

text \<open>
  A digit part is a run of digits in which single underscores may stand between two digits.
  \<open>take_digitpart\<close> cuts the longest prefix of digits and underscores; \<open>digitpart_ok\<close> says
  whether it is well formed.
\<close>

definition take_digitpart :: "string \<Rightarrow> string \<times> string" where
  "take_digitpart s =
     (takeWhile (\<lambda>c. is_digit c \<or> c = CHR ''_'') s, dropWhile (\<lambda>c. is_digit c \<or> c = CHR ''_'') s)"

fun no_double_underscore :: "string \<Rightarrow> bool" where
  "no_double_underscore (a # b # s) =
     (\<not> (a = CHR ''_'' \<and> b = CHR ''_'') \<and> no_double_underscore (b # s))"
| "no_double_underscore _ = True"

definition digitpart_ok :: "string \<Rightarrow> bool" where
  "digitpart_ok p = (p \<noteq> [] \<and> is_digit (hd p) \<and> is_digit (last p) \<and> no_double_underscore p)"

definition digits_value :: "string \<Rightarrow> nat" where
  "digits_value p = foldl (\<lambda>n c. 10 * n + digit_val c) 0 (filter is_digit p)"

definition take_sign :: "string \<Rightarrow> bool \<times> string" where
  "take_sign s =
     (case s of
        c # r \<Rightarrow> if c = CHR ''-'' then (True, r) else if c = CHR ''+'' then (False, r) else (False, s)
      | [] \<Rightarrow> (False, s))"

text \<open>
  \<^verbatim>\<open>int(s)\<close> for a string, in base ten: surrounding white space, an optional sign, one
  digit part. Digits and white space beyond code point 255 are outside the model, and the
  limit that recent interpreters put on the number of digits is left out.
\<close>

definition py_int :: "string \<Rightarrow> exc + int" where
  "py_int s =
     (let (neg, r) = take_sign (strip s); (p, rest) = take_digitpart r
      in if digitpart_ok p \<and> rest = []
         then Inr (if neg then - int (digits_value p) else int (digits_value p))
         else Inl ValueError)"

text \<open>The largest finite binary64 is just below this bound; from it on, a value overflows.\<close>

definition float_overflow :: rat where
  "float_overflow = 2 ^ 1024 - 2 ^ 970"

definition to_float :: "rat \<Rightarrow> pyfloat" where
  "to_float q =
     (if float_overflow \<le> q then PosInf
      else if q \<le> - float_overflow then NegInf
      else Finite q)"

definition to_lower :: "char \<Rightarrow> char" where
  "to_lower c =
     (if c \<in> set ''ABCDEFGHIJKLMNOPQRSTUVWXYZ'' then char_of (of_char c + (32::nat)) else c)"

text \<open>
  The number of a float literal without its sign:
  \<^verbatim>\<open>[digitpart] "." digitpart | digitpart ["."]\<close>, then an optional exponent
  \<^verbatim>\<open>("e" | "E") ["+" | "-"] digitpart\<close>.
\<close>

definition parse_exponent :: "string \<Rightarrow> int option" where
  "parse_exponent s =
     (case s of
        [] \<Rightarrow> Some 0
      | c # r \<Rightarrow>
          if c = CHR ''e'' \<or> c = CHR ''E'' then
            (let (neg, r') = take_sign r; (p, rest) = take_digitpart r'
             in if digitpart_ok p \<and> rest = []
                then Some (if neg then - int (digits_value p) else int (digits_value p))
                else None)
          else None)"

definition scale10 :: "rat \<Rightarrow> int \<Rightarrow> rat" where
  "scale10 q e = (if 0 \<le> e then q * 10 ^ nat e else q / 10 ^ nat (- e))"

definition parse_floatnumber :: "string \<Rightarrow> rat option" where
  "parse_floatnumber s =
     (let (ip, r) = take_digitpart s in
      case r of
        c # r' \<Rightarrow>
          if c = CHR ''.'' then
            (let (fp, r'') = take_digitpart r' in
             if (ip = [] \<or> digitpart_ok ip) \<and> (fp = [] \<or> digitpart_ok fp) \<and> \<not> (ip = [] \<and> fp = [])
             then map_option
                    (scale10 (of_nat (digits_value ip)
                       + of_nat (digits_value fp) / 10 ^ length (filter is_digit fp)))
                    (parse_exponent r'')
             else None)
          else if digitpart_ok ip
            then map_option (scale10 (of_nat (digits_value ip))) (parse_exponent r)
            else None
      | [] \<Rightarrow> if digitpart_ok ip then Some (of_nat (digits_value ip)) else None)"

text \<open>
  \<^verbatim>\<open>float(s)\<close> for a string: surrounding white space, an optional sign, then
  \<^verbatim>\<open>inf\<close>, \<^verbatim>\<open>infinity\<close> or \<^verbatim>\<open>nan\<close> in any case, or a float number.
\<close>

definition float_of_string :: "string \<Rightarrow> exc + pyfloat" where
  "float_of_string s =
     (let (neg, r) = take_sign (strip s); l = map to_lower r
      in if l = ''inf'' \<or> l = ''infinity'' then Inr (if neg then NegInf else PosInf)
         else if l = ''nan'' then Inr NaN
         else (case parse_floatnumber r of
                 None \<Rightarrow> Inl ValueError
               | Some q \<Rightarrow> Inr (to_float (if neg then - q else q))))"

text \<open>
  \<^verbatim>\<open>float(x)\<close>: a number converts (an integer beyond the range of binary64 raises
  \<^verbatim>\<open>OverflowError\<close>), a string is parsed, anything else is a \<^verbatim>\<open>TypeError\<close>.
\<close>

fun py_float :: "pyval \<Rightarrow> exc + pyfloat" where
  "py_float PNone = Inl TypeError"
| "py_float (PBool b) = Inr (Finite (if b then 1 else 0))"
| "py_float (PInt i) =
     (if float_overflow \<le> \<bar>of_int i\<bar> then Inl OverflowError else Inr (Finite (of_int i)))"
| "py_float (PFloat f) = Inr f"
| "py_float (PStr s) = float_of_string s"
| "py_float (PList xs) = Inl TypeError"
| "py_float (PDict kvs) = Inl TypeError"

text \<open>Subtraction of floats, with the special values of IEEE 754.\<close>

fun float_sub :: "pyfloat \<Rightarrow> pyfloat \<Rightarrow> pyfloat" where
  "float_sub NaN _ = NaN"
| "float_sub _ NaN = NaN"
| "float_sub (Finite a) (Finite b) = to_float (a - b)"
| "float_sub (Finite a) PosInf = NegInf"
| "float_sub (Finite a) NegInf = PosInf"
| "float_sub PosInf PosInf = NaN"
| "float_sub PosInf _ = PosInf"
| "float_sub NegInf NegInf = NaN"
| "float_sub NegInf _ = NegInf"

section \<open>The calendar and the sort key\<close>

definition NEPALI_MONTHS_ORDER :: "string list" where
  "NEPALI_MONTHS_ORDER =
     [''Baisakh'', ''Jestha'', ''Ashad'', ''Shrawan'', ''Bhadra'', ''Ashwin'',
      ''Kartik'', ''Mangsir'', ''Poush'', ''Magh'', ''Falgun'', ''Chaitra'']"

text \<open>\<^verbatim>\<open>xs.index(v)\<close>: the first position of \<open>v\<close>, or a \<^verbatim>\<open>ValueError\<close>.\<close>

fun list_index :: "'a list \<Rightarrow> 'a \<Rightarrow> exc + nat" where
  "list_index [] v = Inl ValueError"
| "list_index (x # xs) v =
     (if x = v then Inr 0 else pbind (list_index xs v) (\<lambda>i. Inr (Suc i)))"

text \<open>\<^verbatim>\<open>s.split(sep)\<close> with a separator of one character.\<close>

fun split_on :: "char \<Rightarrow> string \<Rightarrow> string list" where
  "split_on sep [] = [[]]"
| "split_on sep (c # s) =
     (if c = sep then [] # split_on sep s
      else (case split_on sep s of p # ps \<Rightarrow> (c # p) # ps | [] \<Rightarrow> [[c]]))"

text \<open>\<^verbatim>\<open>m.split('/')\<close>: only a string has the method.\<close>

definition py_split :: "pyval \<Rightarrow> exc + string list" where
  "py_split m = (case m of PStr s \<Rightarrow> Inr (split_on CHR ''/'' s) | _ \<Rightarrow> Inl AttributeError)"

text \<open>
  \<^verbatim>\<open>'/' in m\<close>: a substring test on a string, a membership test on a list or on the keys
  of a dictionary, a \<^verbatim>\<open>TypeError\<close> on anything else.
\<close>

fun has_slash :: "pyval \<Rightarrow> exc + bool" where
  "has_slash (PStr s) = Inr (CHR ''/'' \<in> set s)"
| "has_slash (PList xs) = Inr (PStr ''/'' \<in> set xs)"
| "has_slash (PDict kvs) = Inr (''/'' \<in> set (map fst kvs))"
| "has_slash _ = Inl TypeError"

text \<open>
  The key of the sort in \<^verbatim>\<open>_process_data\<close>:
  \<^verbatim>\<open>
  lambda x: (
      int(x["month"].split('/')[1]) if '/' in x["month"] else 0,
      NEPALI_MONTHS_ORDER.index(x["month"].split('/')[0]) if '/' in x["month"] else 0
  )
  \<close>
\<close>

definition month_sort_key :: "pyval \<Rightarrow> exc + (int \<times> int)" where
  "month_sort_key x =
     pbind (pbind (dict_getitem x ''month'') has_slash) (\<lambda>c1.
     pbind (if c1
            then pbind (pbind (pbind (dict_getitem x ''month'') py_split)
                          (\<lambda>parts. list_getitem parts 1)) py_int
            else Inr 0) (\<lambda>year.
     pbind (pbind (dict_getitem x ''month'') has_slash) (\<lambda>c2.
     pbind (if c2
            then pbind (pbind (pbind (dict_getitem x ''month'') py_split)
                          (\<lambda>parts. list_getitem parts 0))
                   (\<lambda>name. pbind (list_index NEPALI_MONTHS_ORDER name) (\<lambda>i. Inr (int i)))
            else Inr 0) (\<lambda>month_index.
     Inr (year, month_index)))))"

text \<open>
  \<^verbatim>\<open>xs.sort(key=f)\<close>: the keys are computed first, from left to right, and the first
  exception among them leaves the sort; then the list is sorted by key, stably.
\<close>

fun map_exc :: "('a \<Rightarrow> exc + 'b) \<Rightarrow> 'a list \<Rightarrow> exc + 'b list" where
  "map_exc f [] = Inr []"
| "map_exc f (x # xs) = pbind (f x) (\<lambda>y. pbind (map_exc f xs) (\<lambda>ys. Inr (y # ys)))"

definition list_sort :: "('a \<Rightarrow> exc + 'k::linorder) \<Rightarrow> 'a list \<Rightarrow> exc + 'a list" where
  "list_sort f xs = pbind (map_exc f xs) (\<lambda>ks. Inr (map snd (sort_key fst (zip ks xs))))"

section \<open>Normalisation: \<^verbatim>\<open>_process_data\<close>\<close>

text \<open>What \<^verbatim>\<open>_LOGGER.error\<close> is called with; the exception is the one the message formats.\<close>

datatype log_entry =
    NoDataReceived
  | AuthenticationFailed
  | FailedToFetch int
  | ErrorFetching exc
  | UnexpectedError exc
  | ErrorProcessingItem exc
  | ErrorProcessingData exc
  | ErrorInitialRefresh exc

text \<open>
  The body of the inner \<^verbatim>\<open>try\<close>: the dictionary built from one raw entry. The fields
  are evaluated in the order of the source, so the first exception is the one raised.
\<close>

definition process_item :: "pyval \<Rightarrow> exc + pyval" where
  "process_item item =
     pbind (dict_get item ''month'' (PStr ''Unknown'')) (\<lambda>month.
     pbind (dict_get item ''status'' (PStr ''Unknown'')) (\<lambda>status.
     pbind (pbind (dict_get item ''consumedUnits'' (PInt 0)) py_float) (\<lambda>consumed_units.
     pbind (pbind (dict_get item ''billAmt'' (PInt 0)) py_float) (\<lambda>bill_amount.
     pbind (pbind (dict_get item ''payableAmount'' (PInt 0)) py_float) (\<lambda>payable_amount.
     pbind (pbind (dict_get item ''billAmt'' (PInt 0)) py_float) (\<lambda>b.
     pbind (pbind (dict_get item ''payableAmount'' (PInt 0)) py_float) (\<lambda>p.
     Inr (PDict
       [(''month'', month),
        (''status'', status),
        (''consumed_units'', PFloat consumed_units),
        (''bill_amount'', PFloat bill_amount),
        (''payable_amount'', PFloat payable_amount),
        (''rebate_amount'', PFloat (float_sub b p))]))))))))"

text \<open>
  The loop over the raw entries. It carries the log and the list appended to so far; a
  \<^verbatim>\<open>ValueError\<close> or \<^verbatim>\<open>TypeError\<close> is logged and the loop goes on, any other
  exception leaves the loop.
\<close>

fun analytics_loop ::
  "pyval list \<Rightarrow> log_entry list \<Rightarrow> pyval list \<Rightarrow> log_entry list \<times> (exc + pyval list)" where
  "analytics_loop [] lg acc = (lg, Inr acc)"
| "analytics_loop (item # rest) lg acc =
     (case process_item item of
        Inr processed_item \<Rightarrow> analytics_loop rest lg (acc @ [processed_item])
      | Inl err \<Rightarrow>
          if err = ValueError \<or> err = TypeError
          then analytics_loop rest (lg @ [ErrorProcessingItem err]) acc
          else (lg, Inl err))"

text \<open>
  The top-level fields of the dictionary literal, then the object that the loop iterates
  over. No step logs anything.
\<close>

definition process_header :: "pyval \<Rightarrow> exc + ((string \<times> pyval) list \<times> pyval list)" where
  "process_header payload =
     pbind (dict_get payload ''meterName'' (PStr ''Unknown'')) (\<lambda>meter_name.
     pbind (dict_get payload ''consumerId'' (PStr ''Unknown'')) (\<lambda>consumer_id.
     pbind (dict_get payload ''scNum'' (PStr ''Unknown'')) (\<lambda>sc_num.
     pbind (pbind (dict_get payload ''totalBillAmount'' (PInt 0)) py_float) (\<lambda>total_bill_amount.
     pbind (pbind (dict_get payload ''totalDuesAmount'' (PInt 0)) py_float) (\<lambda>total_dues_amount.
     pbind (pbind (dict_get payload ''meterAnalytics'' (PList [])) py_iter) (\<lambda>items.
     Inr ([(''meter_name'', meter_name),
           (''consumer_id'', consumer_id),
           (''sc_num'', sc_num),
           (''total_bill_amount'', PFloat total_bill_amount),
           (''total_dues_amount'', PFloat total_dues_amount)], items)))))))"

text \<open>The body of the outer \<^verbatim>\<open>try\<close>.\<close>

definition process_body :: "pyval \<Rightarrow> log_entry list \<times> (exc + pyval)" where
  "process_body payload =
     (case process_header payload of
        Inl err \<Rightarrow> ([], Inl err)
      | Inr (fields, items) \<Rightarrow>
          (case analytics_loop items [] [] of
             (lg, Inl err) \<Rightarrow> (lg, Inl err)
           | (lg, Inr analytics) \<Rightarrow>
               (lg, pbind (if analytics \<noteq> [] then list_sort month_sort_key analytics
                           else Inr analytics)
                      (\<lambda>sorted_analytics.
                         Inr (PDict (fields @ [(''meter_analytics'', PList sorted_analytics)]))))))"

definition process_data :: "pyval \<Rightarrow> log_entry list \<times> pyval" where
  "process_data payload =
     (case process_body payload of
        (lg, Inr processed_data) \<Rightarrow> (lg, processed_data)
      | (lg, Inl err) \<Rightarrow> (lg @ [ErrorProcessingData err], PNone))"

section \<open>One poll: \<^verbatim>\<open>_async_update_data\<close>\<close>

text \<open>
  What the HTTP layer answers in one cycle: the request raises, or a response arrives with
  its status and with what \<^verbatim>\<open>response.json()\<close> would give (a value or an exception).
\<close>

datatype reply = RequestRaises exc | Response int "exc + pyval"

text \<open>The body of the \<^verbatim>\<open>try\<close> in \<^verbatim>\<open>_async_update_data\<close>.\<close>

definition fetch :: "reply \<Rightarrow> log_entry list \<times> (exc + pyval)" where
  "fetch r =
     (case r of
        RequestRaises err \<Rightarrow> ([], Inl err)
      | Response status body \<Rightarrow>
          if status = 200 then
            (case body of
               Inl err \<Rightarrow> ([], Inl err)
             | Inr js \<Rightarrow>
                 (case dict_get js ''data'' PNone of
                    Inl err \<Rightarrow> ([], Inl err)
                  | Inr d \<Rightarrow>
                      if \<not> truthy d then ([NoDataReceived], Inr PNone)
                      else (case dict_getitem js ''data'' of
                              Inl err \<Rightarrow> ([], Inl err)
                            | Inr payload \<Rightarrow>
                                (case process_data payload of (lg, v) \<Rightarrow> (lg, Inr v)))))
          else if status = 401 then ([AuthenticationFailed], Inr PNone)
          else ([FailedToFetch status], Inr PNone))"

text \<open>
  With its two handlers: \<^verbatim>\<open>except aiohttp.ClientError\<close> and \<^verbatim>\<open>except Exception\<close>.
  Both log and return \<^verbatim>\<open>None\<close>.
\<close>

definition async_update_data :: "reply \<Rightarrow> log_entry list \<times> (exc + pyval)" where
  "async_update_data r =
     (case fetch r of
        (lg, Inr v) \<Rightarrow> (lg, Inr v)
      | (lg, Inl err) \<Rightarrow>
          if err = ClientError then (lg @ [ErrorFetching err], Inr PNone)
          else (lg @ [UnexpectedError err], Inr PNone))"

section \<open>The coordinator and the sensors\<close>

text \<open>
  \<^verbatim>\<open>ElectricityUsageCoordinator\<close> inherits its refresh from Home Assistant's
  \<^verbatim>\<open>DataUpdateCoordinator\<close>, a class of the library that sensor.py imports from
  \<^verbatim>\<open>homeassistant.helpers.update_coordinator\<close>. Of that class the model keeps the
  two attributes the integration reads or relies on, and what a refresh does with the
  outcome of \<^verbatim>\<open>_async_update_data\<close>: a returned value is assigned to \<^verbatim>\<open>self.data\<close>
  and the update counts as successful; an exception leaves \<^verbatim>\<open>self.data\<close> as it was and
  the update counts as failed. \<^verbatim>\<open>async_config_entry_first_refresh\<close> is one refresh that
  raises \<^verbatim>\<open>ConfigEntryNotReady\<close> when the update failed.
\<close>

record coordinator =
  data :: pyval
  last_update_success :: bool

definition new_coordinator :: coordinator where
  "new_coordinator = \<lparr>data = PNone, last_update_success = True\<rparr>"

definition async_refresh :: "coordinator \<Rightarrow> reply \<Rightarrow> log_entry list \<times> coordinator" where
  "async_refresh c r =
     (case async_update_data r of
        (lg, Inr v) \<Rightarrow> (lg, c\<lparr>data := v, last_update_success := True\<rparr>)
      | (lg, Inl err) \<Rightarrow> (lg, c\<lparr>last_update_success := False\<rparr>))"

definition async_config_entry_first_refresh ::
  "coordinator \<Rightarrow> reply \<Rightarrow> log_entry list \<times> (exc + coordinator)" where
  "async_config_entry_first_refresh c r =
     (case async_refresh c r of
        (lg, c') \<Rightarrow> (lg, if last_update_success c' then Inr c' else Inl ConfigEntryNotReady))"

datatype sensor =
    ElectricityTotalBillSensor
  | ElectricityTotalDuesSensor
  | ElectricityMeterNameSensor
  | ElectricityConsumerIDSensor
  | ElectricityScNumSensor
  | ElectricityMonthlyDataSensor

text \<open>
  \<^verbatim>\<open>async_setup_entry\<close> of sensor.py: the first refresh, whose exception is logged and
  raised again; then the six sensors when the coordinator has data, and none otherwise.
\<close>

definition async_setup_entry :: "reply \<Rightarrow> log_entry list \<times> (exc + coordinator \<times> sensor list)" where
  "async_setup_entry r =
     (case async_config_entry_first_refresh new_coordinator r of
        (lg, Inl err) \<Rightarrow> (lg @ [ErrorInitialRefresh err], Inl err)
      | (lg, Inr c) \<Rightarrow>
          (lg, Inr (c,
             if truthy (data c)
             then [ElectricityTotalBillSensor, ElectricityTotalDuesSensor,
                   ElectricityMeterNameSensor, ElectricityConsumerIDSensor,
                   ElectricityScNumSensor, ElectricityMonthlyDataSensor]
             else [])))"

text \<open>\<^verbatim>\<open>native_value\<close> of each sensor, read from the coordinator's data.\<close>

fun native_value :: "sensor \<Rightarrow> coordinator \<Rightarrow> exc + pyval" where
  "native_value ElectricityTotalBillSensor c =
     (if truthy (data c) then dict_get (data c) ''total_bill_amount'' PNone else Inr PNone)"
| "native_value ElectricityTotalDuesSensor c =
     (if truthy (data c) then dict_get (data c) ''total_dues_amount'' PNone else Inr PNone)"
| "native_value ElectricityMeterNameSensor c =
     (if truthy (data c) then dict_get (data c) ''meter_name'' PNone else Inr PNone)"
| "native_value ElectricityConsumerIDSensor c =
     (if truthy (data c) then dict_get (data c) ''consumer_id'' PNone else Inr PNone)"
| "native_value ElectricityScNumSensor c =
     (if truthy (data c) then dict_get (data c) ''sc_num'' PNone else Inr PNone)"
| "native_value ElectricityMonthlyDataSensor c =
     (if truthy (data c) then
        pbind (dict_get (data c) ''meter_analytics'' PNone) (\<lambda>ma.
          if truthy ma then
            pbind (dict_getitem (data c) ''meter_analytics'') (\<lambda>l.
            pbind (case l of
                     PList xs \<Rightarrow> list_getitem xs 0
                   | PStr s \<Rightarrow> map_sum id (\<lambda>ch. PStr [ch]) (list_getitem s 0)
                   | PDict kvs \<Rightarrow> Inl KeyError
                   | _ \<Rightarrow> Inl TypeError) (\<lambda>first.
            dict_getitem first ''consumed_units''))
          else Inr PNone)
      else Inr PNone)"

text \<open>\<^verbatim>\<open>extra_state_attributes\<close> of the monthly sensor.\<close>

definition extra_state_attributes :: "coordinator \<Rightarrow> exc + pyval" where
  "extra_state_attributes c =
     (if truthy (data c)
      then pbind (dict_get (data c) ''meter_analytics'' (PList []))
             (\<lambda>ma. Inr (PDict [(''monthly_data'', ma)]))
      else Inr (PDict []))"

section \<open>Notions used in the statements\<close>

text \<open>An entry that the loop logs and skips: its processing raises one of the two caught exceptions.\<close>

definition dropped :: "pyval \<Rightarrow> bool" where
  "dropped item = (process_item item = Inl ValueError \<or> process_item item = Inl TypeError)"

text \<open>The processed forms of the raw entries that process without an exception, in their order.\<close>

definition kept_entries :: "pyval list \<Rightarrow> pyval list" where
  "kept_entries items =
     List.map_filter (\<lambda>i. case process_item i of Inr e \<Rightarrow> Some e | Inl _ \<Rightarrow> None) items"

text \<open>The \<^verbatim>\<open>meter_analytics\<close> list of a normalised record.\<close>

definition meter_analytics :: "pyval \<Rightarrow> pyval list" where
  "meter_analytics d =
     (case dict_getitem d ''meter_analytics'' of Inr (PList xs) \<Rightarrow> xs | _ \<Rightarrow> [])"

definition is_float :: "pyval \<Rightarrow> bool" where
  "is_float v = (case v of PFloat f \<Rightarrow> True | _ \<Rightarrow> False)"

text \<open>A monthly entry with its six keys, the four amounts being floats.\<close>

definition is_monthly_entry :: "pyval \<Rightarrow> bool" where
  "is_monthly_entry e =
     (case e of
        PDict kvs \<Rightarrow>
          map fst kvs = [''month'', ''status'', ''consumed_units'', ''bill_amount'',
                         ''payable_amount'', ''rebate_amount'']
          \<and> list_all is_float (map snd (drop 2 kvs))
      | _ \<Rightarrow> False)"

text \<open>
  The shape of a record, and no more: its six keys in their order, the two totals floats,
  the analytics a list of monthly entries. It says nothing of the values under the keys.
\<close>

definition record_shape :: "pyval \<Rightarrow> bool" where
  "record_shape v =
     (case v of
        PDict kvs \<Rightarrow>
          map fst kvs = [''meter_name'', ''consumer_id'', ''sc_num'', ''total_bill_amount'',
                         ''total_dues_amount'', ''meter_analytics'']
          \<and> list_all is_float (map snd (take 2 (drop 3 kvs)))
          \<and> (case map snd (drop 5 kvs) of
                [PList an] \<Rightarrow> list_all is_monthly_entry an
              | _ \<Rightarrow> False)
      | _ \<Rightarrow> False)"

text \<open>
  The \<^verbatim>\<open>NormalizedRecord\<close> of the specification (its section 3), in the specification's
  words: \<^verbatim>\<open>meter_name\<close>, \<^verbatim>\<open>consumer_id\<close> and \<^verbatim>\<open>sc_num\<close> are strings,
  \<^verbatim>\<open>total_bill_amount\<close> is a non-negative decimal, \<^verbatim>\<open>total_dues_amount\<close> a
  decimal, and \<^verbatim>\<open>meter_analytics\<close> a sequence of monthly entries; in a monthly entry
  \<^verbatim>\<open>month\<close> and \<^verbatim>\<open>status\<close> are strings, \<^verbatim>\<open>consumed_units\<close>,
  \<^verbatim>\<open>bill_amount\<close> and \<^verbatim>\<open>payable_amount\<close> are decimals that are not negative, and
  \<^verbatim>\<open>rebate_amount\<close> is a decimal. A decimal is a finite float.
\<close>

definition is_str :: "pyval \<Rightarrow> bool" where
  "is_str v = (case v of PStr s \<Rightarrow> True | _ \<Rightarrow> False)"

definition is_decimal :: "pyval \<Rightarrow> bool" where
  "is_decimal v = (case v of PFloat (Finite q) \<Rightarrow> True | _ \<Rightarrow> False)"

definition is_nonneg_decimal :: "pyval \<Rightarrow> bool" where
  "is_nonneg_decimal v = (case v of PFloat (Finite q) \<Rightarrow> 0 \<le> q | _ \<Rightarrow> False)"

definition spec_monthly_entry :: "pyval \<Rightarrow> bool" where
  "spec_monthly_entry e =
     (case e of
        PDict kvs \<Rightarrow>
          map fst kvs = [''month'', ''status'', ''consumed_units'', ''bill_amount'',
                         ''payable_amount'', ''rebate_amount'']
          \<and> (case map snd kvs of
                [month, status, consumed_units, bill_amount, payable_amount, rebate_amount] \<Rightarrow>
                  is_str month \<and> is_str status \<and> is_nonneg_decimal consumed_units
                  \<and> is_nonneg_decimal bill_amount \<and> is_nonneg_decimal payable_amount
                  \<and> is_decimal rebate_amount
              | _ \<Rightarrow> False)
      | _ \<Rightarrow> False)"

definition spec_normalized_record :: "pyval \<Rightarrow> bool" where
  "spec_normalized_record v =
     (case v of
        PDict kvs \<Rightarrow>
          map fst kvs = [''meter_name'', ''consumer_id'', ''sc_num'', ''total_bill_amount'',
                         ''total_dues_amount'', ''meter_analytics'']
          \<and> (case map snd kvs of
                [meter_name, consumer_id, sc_num, total_bill_amount, total_dues_amount, PList an] \<Rightarrow>
                  is_str meter_name \<and> is_str consumer_id \<and> is_str sc_num
                  \<and> is_nonneg_decimal total_bill_amount \<and> is_decimal total_dues_amount
                  \<and> list_all spec_monthly_entry an
              | _ \<Rightarrow> False)
      | _ \<Rightarrow> False)"

text \<open>
  The specification's taxonomy of failed cycles (its sections 4.1 and 7), written over the
  replies of the HTTP layer: \<open>None\<close> is a cycle that yields a record. A body that does not
  decode, or that is not an object, counts as malformed.
\<close>

datatype failure_kind = Transport | Unauthorized | HttpError int | EmptyPayload | Malformed

definition failure_of :: "reply \<Rightarrow> failure_kind option" where
  "failure_of r =
     (case r of
        RequestRaises err \<Rightarrow> Some Transport
      | Response status body \<Rightarrow>
          if status = 401 then Some Unauthorized
          else if status \<noteq> 200 then Some (HttpError status)
          else (case body of
                  Inl err \<Rightarrow> Some Malformed
                | Inr (PDict kvs) \<Rightarrow>
                    (case map_of kvs ''data'' of
                       None \<Rightarrow> Some EmptyPayload
                     | Some d \<Rightarrow>
                         if \<not> truthy d then Some EmptyPayload
                         else if snd (process_data d) = PNone then Some Malformed
                         else None)
                | Inr _ \<Rightarrow> Some Malformed))"

text \<open>Raw entries and payloads for the examples.\<close>

definition example_entry :: "string \<Rightarrow> pyval" where
  "example_entry m =
     PDict [(''month'', PStr m), (''status'', PStr ''PAID''), (''consumedUnits'', PInt 120),
            (''billAmt'', PStr ''950.5''), (''payableAmount'', PFloat (Finite 930))]"

definition example_payload :: "pyval list \<Rightarrow> pyval" where
  "example_payload items =
     PDict [(''meterName'', PStr ''M-1''), (''consumerId'', PInt 4711), (''scNum'', PStr ''001.02.003''),
            (''totalBillAmount'', PStr ''2851.5''), (''totalDuesAmount'', PInt 0),
            (''meterAnalytics'', PList items)]"

definition example_reply :: "pyval list \<Rightarrow> reply" where
  "example_reply items = Response 200 (Inr (PDict [(''data'', example_payload items)]))"

text \<open>What \<open>example_entry\<close> is processed to.\<close>

definition processed_example :: "string \<Rightarrow> pyval" where
  "processed_example m =
     PDict [(''month'', PStr m), (''status'', PStr ''PAID''),
            (''consumed_units'', PFloat (Finite 120)),
            (''bill_amount'', PFloat (Finite (1901 / 2))),
            (''payable_amount'', PFloat (Finite 930)),
            (''rebate_amount'', PFloat (Finite (41 / 2)))]"

text \<open>
  A raw entry whose consumed units are not a number, and one in which only the bill amount
  is present.
\<close>

definition example_bad_entry :: pyval where
  "example_bad_entry =
     PDict [(''month'', PStr ''Magh/80''), (''status'', PStr ''PAID''),
            (''consumedUnits'', PStr ''abc''), (''billAmt'', PInt 100), (''payableAmount'', PInt 100)]"

definition example_sparse_entry :: pyval where
  "example_sparse_entry = PDict [(''month'', PStr ''Magh/80''), (''billAmt'', PInt 100)]"

section \<open>Exceptions in sequence\<close>

lemma pbind_Inl [simp]: "pbind (Inl e) f = Inl e"
  by (simp add: pbind_def)

lemma pbind_Inr [simp]: "pbind (Inr v) f = f v"
  by (simp add: pbind_def)

lemma pbind_eq_Inr: "pbind m f = Inr y \<longleftrightarrow> (\<exists>v. m = Inr v \<and> f v = Inr y)"
  by (cases m) simp_all

lemma map_exc_Inr: "map_exc f xs = Inr ks \<longleftrightarrow> map f xs = map Inr ks"
proof (induction xs arbitrary: ks)
  case Nil
  show ?case by auto
next
  case (Cons x xs)
  show ?case
  proof (cases "f x")
    case (Inl e)
    then show ?thesis by (cases ks) auto
  next
    case (Inr k)
    show ?thesis
    proof (cases "map_exc f xs")
      case (Inl e)
      with Cons.IH have "\<And>ks'. map f xs \<noteq> map Inr ks'" by auto
      with Inl Inr show ?thesis by (cases ks) auto
    next
      case r: (Inr ks')
      with Cons.IH [of ks'] have "map f xs = map Inr ks'" by simp
      with r Inr show ?thesis by (cases ks) auto
    qed
  qed
qed

section \<open>The loop over the raw entries\<close>

lemma kept_entries_Nil [simp]: "kept_entries [] = []"
  by (simp add: kept_entries_def)

lemma kept_entries_Cons:
  "kept_entries (i # items) =
     (case process_item i of Inr e \<Rightarrow> e # kept_entries items | Inl _ \<Rightarrow> kept_entries items)"
  by (simp add: kept_entries_def split: sum.splits)


text \<open>When the loop ends normally, it has appended exactly the kept entries.\<close>

lemma loop_Inr:
  "snd (analytics_loop items lg acc) = Inr out \<Longrightarrow> out = acc @ kept_entries items"
proof (induction items arbitrary: lg acc)
  case Nil
  then show ?case by simp
next
  case (Cons i items)
  show ?case
  proof (cases "process_item i")
    case (Inr e)
    with Cons.prems have "snd (analytics_loop items lg (acc @ [e])) = Inr out" by simp
    from Cons.IH [OF this] Inr show ?thesis by (simp add: kept_entries_Cons)
  next
    case (Inl x)
    with Cons.prems have d: "x = ValueError \<or> x = TypeError"
      by (auto split: if_splits)
    with Inl Cons.prems have "snd (analytics_loop items (lg @ [ErrorProcessingItem x]) acc) = Inr out"
      by auto
    from Cons.IH [OF this] Inl show ?thesis by (simp add: kept_entries_Cons)
  qed
qed




lemma kept_entries_mem:
  "i \<in> set items \<Longrightarrow> process_item i = Inr e \<Longrightarrow> e \<in> set (kept_entries items)"
  by (induction items) (auto simp: kept_entries_Cons split: sum.splits)

section \<open>The sort\<close>

text \<open>
  A sort that returns has computed every key; its result is a rearrangement of the list,
  ascending in the keys, and entries of equal key keep their order.
\<close>

lemma list_sort_props:
  assumes "list_sort f xs = Inr ys"
  shows "mset ys = mset xs"
    and "\<exists>ks. map_exc f ys = Inr ks \<and> sorted ks"
    and "filter (\<lambda>e. f e = Inr k) ys = filter (\<lambda>e. f e = Inr k) xs"
proof -
  from assms obtain ks where ks: "map_exc f xs = Inr ks"
    and ys: "ys = map snd (sort_key fst (zip ks xs))"
    by (auto simp: list_sort_def pbind_eq_Inr)
  from ks have m: "map f xs = map Inr ks" by (simp add: map_exc_Inr)
  then have len: "length ks = length xs" by (metis length_map)
  have inv: "f (snd p) = Inr (fst p)" if "p \<in> set (zip ks xs)" for p
  proof -
    from that obtain n where n: "n < length xs" "p = (ks ! n, xs ! n)"
      using len by (auto simp: set_zip)
    from m n len have "f (xs ! n) = Inr (ks ! n)" by (metis nth_map)
    with n show ?thesis by simp
  qed
  let ?S = "sort_key fst (zip ks xs)"
  have invS: "f (snd p) = Inr (fst p)" if "p \<in> set ?S" for p
    using that inv by simp
  show "mset ys = mset xs"
  proof -
    have "mset ys = image_mset snd (mset (zip ks xs))" by (simp add: ys)
    also have "\<dots> = mset (map snd (zip ks xs))" by simp
    also have "\<dots> = mset xs" using len by simp
    finally show ?thesis .
  qed
  have "map f ys = map Inr (map fst ?S)"
    using invS by (simp add: ys)
  then have "map_exc f ys = Inr (map fst ?S)" by (simp add: map_exc_Inr)
  moreover have "sorted (map fst ?S)" by (rule sorted_sort_key)
  ultimately show "\<exists>ks. map_exc f ys = Inr ks \<and> sorted ks" by blast
  have "filter (\<lambda>e. f e = Inr k) ys = map snd (filter (\<lambda>p. f (snd p) = Inr k) ?S)"
    by (simp add: ys filter_map comp_def)
  also have "filter (\<lambda>p. f (snd p) = Inr k) ?S = filter (\<lambda>p. fst p = k) ?S"
    by (rule filter_cong) (auto simp: invS simp del: set_sort)
  also have "\<dots> = filter (\<lambda>p. fst p = k) (zip ks xs)" by (rule sort_key_stable)
  also have "\<dots> = filter (\<lambda>p. f (snd p) = Inr k) (zip ks xs)"
    by (rule filter_cong) (auto simp: inv)
  also have "map snd \<dots> = filter (\<lambda>e. f e = Inr k) (map snd (zip ks xs))"
    by (simp add: filter_map comp_def)
  also have "map snd (zip ks xs) = xs" using len by simp
  finally show "filter (\<lambda>e. f e = Inr k) ys = filter (\<lambda>e. f e = Inr k) xs" .
qed

section \<open>The shape of a normalisation\<close>

lemma process_data_snd:
  "snd (process_data payload) =
     (case process_header payload of
        Inl err \<Rightarrow> PNone
      | Inr (hdr, items) \<Rightarrow>
          (case snd (analytics_loop items [] []) of
             Inl err \<Rightarrow> PNone
           | Inr acc \<Rightarrow>
               (case (if acc \<noteq> [] then list_sort month_sort_key acc else Inr acc) of
                  Inl err \<Rightarrow> PNone
                | Inr an \<Rightarrow> PDict (hdr @ [(''meter_analytics'', PList an)]))))"
proof (cases "process_header payload")
  case (Inl err)
  then show ?thesis by (simp add: process_data_def process_body_def)
next
  case (Inr p)
  obtain hdr items where p: "p = (hdr, items)" by (cases p)
  obtain lg res where l: "analytics_loop items [] [] = (lg, res)"
    by (cases "analytics_loop items [] []")
  show ?thesis
  proof (cases res)
    case (Inl err)
    with Inr p l show ?thesis by (simp add: process_data_def process_body_def)
  next
    case r: (Inr acc)
    show ?thesis
    proof (cases "if acc \<noteq> [] then list_sort month_sort_key acc else Inr acc")
      case (Inl err)
      with Inr p l r show ?thesis by (simp add: process_data_def process_body_def)
    next
      case s: (Inr an)
      with Inr p l r show ?thesis by (simp add: process_data_def process_body_def)
    qed
  qed
qed

lemma process_data_PDict:
  assumes "snd (process_data payload) = PDict rec"
  obtains hdr items an where
    "process_header payload = Inr (hdr, items)"
    "snd (analytics_loop items [] []) = Inr (kept_entries items)"
    "(if kept_entries items \<noteq> [] then list_sort month_sort_key (kept_entries items)
      else Inr (kept_entries items)) = Inr an"
    "rec = hdr @ [(''meter_analytics'', PList an)]"
proof -
  from assms obtain hdr items acc an where
    h: "process_header payload = Inr (hdr, items)"
    and l: "snd (analytics_loop items [] []) = Inr acc"
    and s: "(if acc \<noteq> [] then list_sort month_sort_key acc else Inr acc) = Inr an"
    and r: "rec = hdr @ [(''meter_analytics'', PList an)]"
    by (auto simp: process_data_snd split: sum.splits prod.splits)
  from loop_Inr [OF l] have "acc = kept_entries items" by simp
  with h l s r that show thesis by blast
qed

lemma process_header_fields:
  assumes "process_header payload = Inr (hdr, items)"
  obtains kvs tb td where
    "payload = PDict kvs"
    "py_float (case map_of kvs ''totalBillAmount'' of Some v \<Rightarrow> v | None \<Rightarrow> PInt 0) = Inr tb"
    "py_float (case map_of kvs ''totalDuesAmount'' of Some v \<Rightarrow> v | None \<Rightarrow> PInt 0) = Inr td"
    "py_iter (case map_of kvs ''meterAnalytics'' of Some v \<Rightarrow> v | None \<Rightarrow> PList []) = Inr items"
    "hdr =
       [(''meter_name'', case map_of kvs ''meterName'' of Some v \<Rightarrow> v | None \<Rightarrow> PStr ''Unknown''),
        (''consumer_id'', case map_of kvs ''consumerId'' of Some v \<Rightarrow> v | None \<Rightarrow> PStr ''Unknown''),
        (''sc_num'', case map_of kvs ''scNum'' of Some v \<Rightarrow> v | None \<Rightarrow> PStr ''Unknown''),
        (''total_bill_amount'', PFloat tb),
        (''total_dues_amount'', PFloat td)]"
proof (cases payload)
  case (PDict kvs)
  with assms that show thesis
    by (auto simp: process_header_def dict_get_def pbind_eq_Inr)
qed (use assms in \<open>simp_all add: process_header_def dict_get_def\<close>)

lemma process_item_PDict:
  "process_item (PDict kvs) =
     pbind (py_float (case map_of kvs ''consumedUnits'' of Some v \<Rightarrow> v | None \<Rightarrow> PInt 0)) (\<lambda>c.
     pbind (py_float (case map_of kvs ''billAmt'' of Some v \<Rightarrow> v | None \<Rightarrow> PInt 0)) (\<lambda>b.
     pbind (py_float (case map_of kvs ''payableAmount'' of Some v \<Rightarrow> v | None \<Rightarrow> PInt 0)) (\<lambda>p.
     Inr (PDict
       [(''month'', case map_of kvs ''month'' of Some v \<Rightarrow> v | None \<Rightarrow> PStr ''Unknown''),
        (''status'', case map_of kvs ''status'' of Some v \<Rightarrow> v | None \<Rightarrow> PStr ''Unknown''),
        (''consumed_units'', PFloat c),
        (''bill_amount'', PFloat b),
        (''payable_amount'', PFloat p),
        (''rebate_amount'', PFloat (float_sub b p))]))))"
  by (simp add: process_item_def dict_get_def pbind_def split: sum.splits)

lemma process_item_not_dict:
  "\<forall>kvs. item \<noteq> PDict kvs \<Longrightarrow> process_item item = Inl AttributeError"
  by (cases item) (simp_all add: process_item_def dict_get_def)

lemma process_item_entry:
  "process_item item = Inr e \<Longrightarrow> is_monthly_entry e"
  by (cases item) (auto simp: process_item_PDict process_item_not_dict pbind_eq_Inr is_monthly_entry_def is_float_def)

lemma kept_entries_entries: "list_all is_monthly_entry (kept_entries items)"
  by (induction items) (auto simp: kept_entries_Cons process_item_entry split: sum.splits)

lemma process_data_record:
  "snd (process_data payload) = PNone \<or> record_shape (snd (process_data payload))"
proof (cases "snd (process_data payload)")
  case (PDict rec)
  then obtain hdr items an where
    h: "process_header payload = Inr (hdr, items)"
    and s: "(if kept_entries items \<noteq> [] then list_sort month_sort_key (kept_entries items)
      else Inr (kept_entries items)) = Inr an"
    and r: "rec = hdr @ [(''meter_analytics'', PList an)]"
    by (rule process_data_PDict)
  have "set an = set (kept_entries items)"
  proof (cases "kept_entries items = []")
    case True
    with s show ?thesis by simp
  next
    case False
    with s have "list_sort month_sort_key (kept_entries items) = Inr an" by simp
    from list_sort_props(1) [OF this] show ?thesis by (metis set_mset_mset)
  qed
  with kept_entries_entries [of items] have an: "list_all is_monthly_entry an"
    by (simp add: list_all_iff)
  from h obtain kvs tb td where
    "hdr =
       [(''meter_name'', case map_of kvs ''meterName'' of Some v \<Rightarrow> v | None \<Rightarrow> PStr ''Unknown''),
        (''consumer_id'', case map_of kvs ''consumerId'' of Some v \<Rightarrow> v | None \<Rightarrow> PStr ''Unknown''),
        (''sc_num'', case map_of kvs ''scNum'' of Some v \<Rightarrow> v | None \<Rightarrow> PStr ''Unknown''),
        (''total_bill_amount'', PFloat tb),
        (''total_dues_amount'', PFloat td)]"
    by (rule process_header_fields)
  with r an PDict show ?thesis by (simp add: record_shape_def is_float_def)
qed (auto simp: process_data_snd split: sum.splits prod.splits)

section \<open>The outcome of a poll\<close>

text \<open>A normalisation that returns \<^verbatim>\<open>None\<close> has logged the exception it caught.\<close>

lemma process_data_PNone_log:
  "snd (process_data payload) = PNone \<Longrightarrow> fst (process_data payload) \<noteq> []"
proof -
  assume a: "snd (process_data payload) = PNone"
  obtain lg res where b: "process_body payload = (lg, res)" by (cases "process_body payload")
  show ?thesis
  proof (cases res)
    case (Inl err)
    with b show ?thesis by (simp add: process_data_def)
  next
    case (Inr v)
    with b have "snd (process_data payload) = v" by (simp add: process_data_def)
    moreover from b Inr have "\<exists>kvs. v = PDict kvs"
      by (auto simp: process_body_def pbind_eq_Inr split: sum.splits prod.splits if_splits)
    ultimately show ?thesis using a by auto
  qed
qed

lemma update_never_raises: "\<exists>v. snd (async_update_data r) = Inr v"
proof -
  obtain lg res where "fetch r = (lg, res)" by (cases "fetch r")
  then show ?thesis by (cases res) (simp_all add: async_update_data_def)
qed

lemma update_failed:
  assumes "failure_of r = Some k"
  shows "snd (async_update_data r) = Inr PNone" and "fst (async_update_data r) \<noteq> []"
proof -
  have "snd (async_update_data r) = Inr PNone \<and> fst (async_update_data r) \<noteq> []"
  proof (cases r)
    case (RequestRaises err)
    then show ?thesis by (simp add: async_update_data_def fetch_def)
  next
    case (Response status body)
    show ?thesis
    proof (cases "status = 200")
      case False
      with Response show ?thesis by (simp add: async_update_data_def fetch_def)
    next
      case True
      show ?thesis
      proof (cases body)
        case (Inl err)
        with True Response show ?thesis by (simp add: async_update_data_def fetch_def)
      next
        case (Inr js)
        show ?thesis
        proof (cases "\<exists>kvs. js = PDict kvs")
          case False
          then have "dict_get js ''data'' PNone = Inl AttributeError"
            by (cases js) (simp_all add: dict_get_def)
          with Inr True Response show ?thesis by (simp add: async_update_data_def fetch_def)
        next
          case t: True
          then obtain kvs where js: "js = PDict kvs" by blast
          show ?thesis
          proof (cases "map_of kvs ''data''")
            case None
            with js Inr True Response show ?thesis
              by (simp add: async_update_data_def fetch_def dict_get_def)
          next
            case (Some d)
            show ?thesis
            proof (cases "truthy d")
              case False
              with Some js Inr True Response show ?thesis
                by (simp add: async_update_data_def fetch_def dict_get_def)
            next
              case td: True
              with assms Some js Inr True Response have n: "snd (process_data d) = PNone"
                by (simp add: failure_of_def split: if_splits)
              obtain lg v where pd: "process_data d = (lg, v)" by (cases "process_data d")
              with n process_data_PNone_log [of d] have "v = PNone" "lg \<noteq> []" by auto
              with pd td Some js Inr True Response show ?thesis
                by (simp add: async_update_data_def fetch_def dict_get_def dict_getitem_def)
            qed
          qed
        qed
      qed
    qed
  qed
  then show "snd (async_update_data r) = Inr PNone" and "fst (async_update_data r) \<noteq> []"
    by simp_all
qed

lemma update_ok:
  assumes "failure_of r = None"
  obtains kvs d where "r = Response 200 (Inr (PDict kvs))" "map_of kvs ''data'' = Some d"
    "truthy d" "async_update_data r = (fst (process_data d), Inr (snd (process_data d)))"
    "snd (process_data d) \<noteq> PNone"
proof -
  from assms obtain body where r: "r = Response 200 body"
    by (cases r) (auto simp: failure_of_def split: if_splits)
  with assms obtain js where b: "body = Inr js"
    by (cases body) (auto simp: failure_of_def)
  with assms r obtain kvs where js: "js = PDict kvs"
    by (cases js) (auto simp: failure_of_def)
  with assms r b obtain d where d: "map_of kvs ''data'' = Some d"
    by (cases "map_of kvs ''data''") (auto simp: failure_of_def)
  with assms r b js have t: "truthy d" and n: "snd (process_data d) \<noteq> PNone"
    by (auto simp: failure_of_def split: if_splits)
  have "async_update_data r = (fst (process_data d), Inr (snd (process_data d)))"
    using r b js d t
    by (simp add: async_update_data_def fetch_def dict_get_def dict_getitem_def split: prod.splits)
  with r b js d t n that show thesis by blast
qed

lemma refresh_eq:
  "async_refresh c r =
     (fst (async_update_data r),
      c\<lparr>data := (case snd (async_update_data r) of Inr v \<Rightarrow> v | Inl e \<Rightarrow> PNone),
        last_update_success := True\<rparr>)"
proof -
  obtain lg res where u: "async_update_data r = (lg, res)" by (cases "async_update_data r")
  with update_never_raises [of r] obtain v where "res = Inr v" by auto
  with u show ?thesis by (simp add: async_refresh_def)
qed

lemma native_value_None: "data c = PNone \<Longrightarrow> native_value s c = Inr PNone"
  by (cases s) simp_all

lemma update_401: "async_update_data (Response 401 body) = ([AuthenticationFailed], Inr PNone)"
  by (simp add: async_update_data_def fetch_def)

lemma update_empty_payload:
  assumes "\<not> truthy (case map_of kvs ''data'' of Some d \<Rightarrow> d | None \<Rightarrow> PNone)"
  shows "async_update_data (Response 200 (Inr (PDict kvs))) = ([NoDataReceived], Inr PNone)"
  using assms by (simp add: async_update_data_def fetch_def dict_get_def)

lemma process_data_not_None:
  assumes "snd (process_data payload) \<noteq> PNone"
  shows "\<exists>rec. snd (process_data payload) = PDict rec"
proof -
  obtain lg res where b: "process_body payload = (lg, res)" by (cases "process_body payload")
  show ?thesis
  proof (cases res)
    case (Inl err)
    with b assms show ?thesis by (simp add: process_data_def)
  next
    case (Inr v)
    with b have "snd (process_data payload) = v" by (simp add: process_data_def)
    moreover from b Inr have "\<exists>kvs. v = PDict kvs"
      by (auto simp: process_body_def pbind_eq_Inr split: sum.splits prod.splits if_splits)
    ultimately show ?thesis by simp
  qed
qed

lemma update_ok_dict:
  assumes "failure_of r = None"
  shows "\<exists>rec. snd (async_update_data r) = Inr (PDict rec)"
proof -
  from assms obtain kvs d where
    u: "async_update_data r = (fst (process_data d), Inr (snd (process_data d)))"
    and n: "snd (process_data d) \<noteq> PNone"
    by (rule update_ok)
  from process_data_not_None [OF n] u show ?thesis by simp
qed

lemma setup_eq:
  "async_setup_entry r =
     (fst (async_update_data r),
      Inr (snd (async_refresh new_coordinator r),
           if truthy (data (snd (async_refresh new_coordinator r)))
           then [ElectricityTotalBillSensor, ElectricityTotalDuesSensor,
                 ElectricityMeterNameSensor, ElectricityConsumerIDSensor,
                 ElectricityScNumSensor, ElectricityMonthlyDataSensor]
           else []))"
  by (simp add: async_setup_entry_def async_config_entry_first_refresh_def refresh_eq)

section \<open>The examples, evaluated\<close>

lemmas parse_defs = float_of_string_def parse_floatnumber_def parse_exponent_def take_sign_def
  take_digitpart_def digitpart_ok_def digits_value_def digit_val_def is_digit_def is_space_def
  strip_def to_lower_def to_float_def float_overflow_def scale10_def py_int_def

lemma float_of_string_examples:
  "float_of_string ''2851.5'' = Inr (Finite (5703 / 2))"
  "float_of_string ''950.5'' = Inr (Finite (1901 / 2))"
  "float_of_string ''abc'' = Inl ValueError"
  by (simp_all add: parse_defs)

lemma py_float_examples:
  "py_float (PInt 0) = Inr (Finite 0)"
  "py_float (PInt 120) = Inr (Finite 120)"
  by (simp_all add: float_overflow_def)

lemma process_item_example: "process_item (example_entry m) = Inr (processed_example m)"
  by (simp add: process_item_PDict example_entry_def processed_example_def
      float_of_string_examples py_float_examples to_float_def float_overflow_def)

lemma process_header_example:
  "process_header (example_payload items) =
     Inr ([(''meter_name'', PStr ''M-1''), (''consumer_id'', PInt 4711),
           (''sc_num'', PStr ''001.02.003''),
           (''total_bill_amount'', PFloat (Finite (5703 / 2))),
           (''total_dues_amount'', PFloat (Finite 0))], items)"
  by (simp add: process_header_def example_payload_def dict_get_def
      float_of_string_examples float_overflow_def)

lemma process_data_example_empty:
  "process_data (example_payload []) =
     ([], PDict [(''meter_name'', PStr ''M-1''), (''consumer_id'', PInt 4711),
           (''sc_num'', PStr ''001.02.003''),
           (''total_bill_amount'', PFloat (Finite (5703 / 2))),
           (''total_dues_amount'', PFloat (Finite 0)),
           (''meter_analytics'', PList [])])"
  by (simp add: process_data_def process_body_def process_header_example)

lemma update_example_empty:
  "async_update_data (example_reply []) = ([], Inr (snd (process_data (example_payload []))))"
  by (simp add: async_update_data_def fetch_def example_reply_def dict_get_def dict_getitem_def
      process_data_example_empty) (simp add: example_payload_def)

lemma failure_of_example_empty: "failure_of (example_reply []) = None"
  by (simp add: failure_of_def example_reply_def process_data_example_empty)
     (simp add: example_payload_def)

section \<open>Keys of the sort, and the examples sorted\<close>

lemma pbind_assoc: "pbind (pbind m f) g = pbind m (\<lambda>x. pbind (f x) g)"
  by (cases m) simp_all

lemma split_on_nonempty: "split_on sep s \<noteq> []"
  by (induction s) (auto split: list.splits)

lemma split_on_no_sep: "sep \<notin> set s \<Longrightarrow> split_on sep s = [s]"
  by (induction s) auto

lemma split_on_append:
  "sep \<notin> set a \<Longrightarrow> split_on sep (a @ sep # b) = a # split_on sep b"
  by (induction a) auto

lemma split_on_length: "sep \<in> set s \<Longrightarrow> 2 \<le> length (split_on sep s)"
proof -
  assume "sep \<in> set s"
  then obtain a b where s: "s = a @ sep # b" and a: "sep \<notin> set a"
    by (meson split_list_first)
  from split_on_nonempty [of sep b] have "1 \<le> length (split_on sep b)"
    by (cases "split_on sep b") simp_all
  with s a show ?thesis by (simp add: split_on_append)
qed

lemma month_sort_key_str:
  assumes "dict_getitem e ''month'' = Inr (PStr s)"
  shows "month_sort_key e =
     (if CHR ''/'' \<in> set s
      then pbind (py_int (split_on CHR ''/'' s ! 1)) (\<lambda>y.
           pbind (list_index NEPALI_MONTHS_ORDER (split_on CHR ''/'' s ! 0)) (\<lambda>i. Inr (y, int i)))
      else Inr (0, 0))"
proof (cases "CHR ''/'' \<in> set s")
  case False
  with assms show ?thesis by (simp add: month_sort_key_def)
next
  case True
  from split_on_length [OF True] have "list_getitem (split_on CHR ''/'' s) 1 = Inr (split_on CHR ''/'' s ! 1)"
    and "list_getitem (split_on CHR ''/'' s) 0 = Inr (split_on CHR ''/'' s ! 0)"
    by (auto simp: list_getitem_def)
  with assms True show ?thesis by (simp add: month_sort_key_def py_split_def pbind_assoc)
qed

lemma month_sort_key_name_year:
  assumes "dict_getitem e ''month'' = Inr (PStr (name @ ''/'' @ yy))"
    and "CHR ''/'' \<notin> set name" and "CHR ''/'' \<notin> set yy"
  shows "month_sort_key e =
     pbind (py_int yy) (\<lambda>y. pbind (list_index NEPALI_MONTHS_ORDER name) (\<lambda>i. Inr (y, int i)))"
proof -
  from assms(2,3) have "split_on CHR ''/'' (name @ ''/'' @ yy) = [name, yy]"
    by (simp add: split_on_append split_on_no_sep)
  with month_sort_key_str [OF assms(1)] show ?thesis by simp
qed

lemma dict_getitem_processed_example [simp]:
  "dict_getitem (processed_example m) ''month'' = Inr (PStr m)"
  by (simp add: processed_example_def dict_getitem_def)

lemma month_index_examples:
  "list_index NEPALI_MONTHS_ORDER ''Baisakh'' = Inr 0"
  "list_index NEPALI_MONTHS_ORDER ''Poush'' = Inr 8"
  "list_index NEPALI_MONTHS_ORDER ''Chaitra'' = Inr 11"
  "list_index NEPALI_MONTHS_ORDER ''Foo'' = Inl ValueError"
  by (simp_all add: NEPALI_MONTHS_ORDER_def)

lemma py_int_examples: "py_int ''80'' = Inr 80" "py_int ''81'' = Inr 81"
  by (simp_all add: parse_defs)

lemma month_sort_key_examples:
  "month_sort_key (processed_example ''Chaitra/80'') = Inr (80, 11)"
  "month_sort_key (processed_example ''Baisakh/81'') = Inr (81, 0)"
  "month_sort_key (processed_example ''Poush/80'') = Inr (80, 8)"
  "month_sort_key (processed_example ''Foo/81'') = Inl ValueError"
proof -
  show "month_sort_key (processed_example ''Chaitra/80'') = Inr (80, 11)"
    using month_sort_key_name_year [of "processed_example ''Chaitra/80''" "''Chaitra''" "''80''"]
    by (simp add: month_index_examples py_int_examples)
  show "month_sort_key (processed_example ''Baisakh/81'') = Inr (81, 0)"
    using month_sort_key_name_year [of "processed_example ''Baisakh/81''" "''Baisakh''" "''81''"]
    by (simp add: month_index_examples py_int_examples)
  show "month_sort_key (processed_example ''Poush/80'') = Inr (80, 8)"
    using month_sort_key_name_year [of "processed_example ''Poush/80''" "''Poush''" "''80''"]
    by (simp add: month_index_examples py_int_examples)
  show "month_sort_key (processed_example ''Foo/81'') = Inl ValueError"
    using month_sort_key_name_year [of "processed_example ''Foo/81''" "''Foo''" "''81''"]
    by (simp add: month_index_examples py_int_examples)
qed

lemma loop_examples:
  "analytics_loop (map example_entry ms) lg acc = (lg, Inr (acc @ map processed_example ms))"
  by (induction ms arbitrary: acc) (simp_all add: process_item_example)

lemma process_data_example_three:
  "process_data (example_payload (map example_entry [''Chaitra/80'', ''Baisakh/81'', ''Poush/80''])) =
     ([], PDict [(''meter_name'', PStr ''M-1''), (''consumer_id'', PInt 4711),
           (''sc_num'', PStr ''001.02.003''),
           (''total_bill_amount'', PFloat (Finite (5703 / 2))),
           (''total_dues_amount'', PFloat (Finite 0)),
           (''meter_analytics'',
              PList (map processed_example [''Poush/80'', ''Chaitra/80'', ''Baisakh/81'']))])"
  by (simp add: process_data_def process_body_def process_header_example
      loop_examples [of "[''Chaitra/80'', ''Baisakh/81'', ''Poush/80'']" "[]" "[]", simplified]
      list_sort_def month_sort_key_examples)

lemma process_data_example_bad_month:
  "process_data (example_payload (map example_entry [''Poush/80'', ''Foo/81''])) =
     ([ErrorProcessingData ValueError], PNone)"
  by (simp add: process_data_def process_body_def process_header_example
      loop_examples [of "[''Poush/80'', ''Foo/81'']" "[]" "[]", simplified]
      list_sort_def month_sort_key_examples)

lemma meter_analytics_snoc [simp]:
  "meter_analytics (PDict (hdr @ [(''meter_analytics'', PList an)])) =
     (case map_of hdr ''meter_analytics'' of None \<Rightarrow> an | Some (PList xs) \<Rightarrow> xs | Some _ \<Rightarrow> [])"
  by (simp add: meter_analytics_def dict_getitem_def map_add_def split: option.splits pyval.splits)

lemma process_data_analytics:
  assumes "snd (process_data payload) = PDict rec"
  obtains hdr items where
    "process_header payload = Inr (hdr, items)"
    "(if kept_entries items \<noteq> [] then list_sort month_sort_key (kept_entries items)
      else Inr (kept_entries items)) = Inr (meter_analytics (PDict rec))"
    "rec = hdr @ [(''meter_analytics'', PList (meter_analytics (PDict rec)))]"
proof -
  from assms obtain hdr items an where
    h: "process_header payload = Inr (hdr, items)"
    and s: "(if kept_entries items \<noteq> [] then list_sort month_sort_key (kept_entries items)
      else Inr (kept_entries items)) = Inr an"
    and r: "rec = hdr @ [(''meter_analytics'', PList an)]"
    by (rule process_data_PDict)
  from h obtain kvs tb td where
    "hdr =
       [(''meter_name'', case map_of kvs ''meterName'' of Some v \<Rightarrow> v | None \<Rightarrow> PStr ''Unknown''),
        (''consumer_id'', case map_of kvs ''consumerId'' of Some v \<Rightarrow> v | None \<Rightarrow> PStr ''Unknown''),
        (''sc_num'', case map_of kvs ''scNum'' of Some v \<Rightarrow> v | None \<Rightarrow> PStr ''Unknown''),
        (''total_bill_amount'', PFloat tb),
        (''total_dues_amount'', PFloat td)]"
    by (rule process_header_fields)
  then have "map_of hdr ''meter_analytics'' = None" by simp
  with r have an: "meter_analytics (PDict rec) = an" by simp
  show thesis
  proof (rule that)
    show "process_header payload = Inr (hdr, items)" by (rule h)
    show "(if kept_entries items \<noteq> [] then list_sort month_sort_key (kept_entries items)
      else Inr (kept_entries items)) = Inr (meter_analytics (PDict rec))"
      using s an by simp
    show "rec = hdr @ [(''meter_analytics'', PList (meter_analytics (PDict rec)))]"
      using r an by simp
  qed
qed

lemma py_int_error: "py_int s = Inl x \<Longrightarrow> x = ValueError"
  by (auto simp: py_int_def Let_def split: prod.splits if_splits)

lemma list_index_error: "list_index xs v = Inl x \<Longrightarrow> x = ValueError"
  by (induction xs arbitrary: x) (auto simp: pbind_def split: if_splits sum.splits)

lemma process_header_PDict:
  "process_header (PDict kvs) =
     pbind (py_float (case map_of kvs ''totalBillAmount'' of Some v \<Rightarrow> v | None \<Rightarrow> PInt 0)) (\<lambda>tb.
     pbind (py_float (case map_of kvs ''totalDuesAmount'' of Some v \<Rightarrow> v | None \<Rightarrow> PInt 0)) (\<lambda>td.
     pbind (py_iter (case map_of kvs ''meterAnalytics'' of Some v \<Rightarrow> v | None \<Rightarrow> PList [])) (\<lambda>items.
     Inr ([(''meter_name'', case map_of kvs ''meterName'' of Some v \<Rightarrow> v | None \<Rightarrow> PStr ''Unknown''),
           (''consumer_id'', case map_of kvs ''consumerId'' of Some v \<Rightarrow> v | None \<Rightarrow> PStr ''Unknown''),
           (''sc_num'', case map_of kvs ''scNum'' of Some v \<Rightarrow> v | None \<Rightarrow> PStr ''Unknown''),
           (''total_bill_amount'', PFloat tb),
           (''total_dues_amount'', PFloat td)], items))))"
  by (simp add: process_header_def dict_get_def pbind_assoc)








lemma dropped_example_bad_entry: "dropped example_bad_entry"
  by (simp add: dropped_def example_bad_entry_def process_item_PDict float_of_string_examples)

lemma process_header_float_error:
  assumes "map_of kvs ''totalBillAmount'' = Some v \<or> map_of kvs ''totalDuesAmount'' = Some v"
    and "py_float v = Inl err"
  shows "\<exists>err'. process_header (PDict kvs) = Inl err'"
proof (cases "py_float (case map_of kvs ''totalBillAmount'' of Some v \<Rightarrow> v | None \<Rightarrow> PInt 0)")
  case (Inl e)
  then show ?thesis by (simp add: process_header_PDict)
next
  case (Inr tb)
  with assms have "map_of kvs ''totalDuesAmount'' = Some v" by auto
  with assms(2) Inr show ?thesis by (simp add: process_header_PDict)
qed

lemma float_overflow_pos: "\<not> float_overflow \<le> 0"
  by (simp add: float_overflow_def)

lemma process_data_defaults:
  assumes "snd (process_data (PDict kvs)) = PDict rec"
  shows "map_of rec ''meter_name''
        = Some (case map_of kvs ''meterName'' of Some v \<Rightarrow> v | None \<Rightarrow> PStr ''Unknown'')"
    and "map_of rec ''consumer_id''
        = Some (case map_of kvs ''consumerId'' of Some v \<Rightarrow> v | None \<Rightarrow> PStr ''Unknown'')"
    and "map_of rec ''sc_num''
        = Some (case map_of kvs ''scNum'' of Some v \<Rightarrow> v | None \<Rightarrow> PStr ''Unknown'')"
    and "map_of kvs ''totalBillAmount'' = None \<Longrightarrow>
         map_of rec ''total_bill_amount'' = Some (PFloat (Finite 0))"
    and "map_of kvs ''totalDuesAmount'' = None \<Longrightarrow>
         map_of rec ''total_dues_amount'' = Some (PFloat (Finite 0))"
proof -
  from assms obtain hdr items an where
    h: "process_header (PDict kvs) = Inr (hdr, items)"
    and r: "rec = hdr @ [(''meter_analytics'', PList an)]"
    by (rule process_data_PDict)
  from h obtain kvs' tb td where
    k: "PDict kvs = PDict kvs'"
    and tb: "py_float (case map_of kvs' ''totalBillAmount'' of Some v \<Rightarrow> v | None \<Rightarrow> PInt 0) = Inr tb"
    and td: "py_float (case map_of kvs' ''totalDuesAmount'' of Some v \<Rightarrow> v | None \<Rightarrow> PInt 0) = Inr td"
    and hdr: "hdr =
       [(''meter_name'', case map_of kvs' ''meterName'' of Some v \<Rightarrow> v | None \<Rightarrow> PStr ''Unknown''),
        (''consumer_id'', case map_of kvs' ''consumerId'' of Some v \<Rightarrow> v | None \<Rightarrow> PStr ''Unknown''),
        (''sc_num'', case map_of kvs' ''scNum'' of Some v \<Rightarrow> v | None \<Rightarrow> PStr ''Unknown''),
        (''total_bill_amount'', PFloat tb),
        (''total_dues_amount'', PFloat td)]"
    by (rule process_header_fields)
  from k have kk: "kvs' = kvs" by simp
  from r hdr kk show "map_of rec ''meter_name''
        = Some (case map_of kvs ''meterName'' of Some v \<Rightarrow> v | None \<Rightarrow> PStr ''Unknown'')"
    by simp
  from r hdr kk show "map_of rec ''consumer_id''
        = Some (case map_of kvs ''consumerId'' of Some v \<Rightarrow> v | None \<Rightarrow> PStr ''Unknown'')"
    by simp
  from r hdr kk show "map_of rec ''sc_num''
        = Some (case map_of kvs ''scNum'' of Some v \<Rightarrow> v | None \<Rightarrow> PStr ''Unknown'')"
    by simp
  show "map_of rec ''total_bill_amount'' = Some (PFloat (Finite 0))"
    if "map_of kvs ''totalBillAmount'' = None"
    using that r hdr kk tb by (simp add: float_overflow_pos)
  show "map_of rec ''total_dues_amount'' = Some (PFloat (Finite 0))"
    if "map_of kvs ''totalDuesAmount'' = None"
    using that r hdr kk td by (simp add: float_overflow_pos)
qed

lemma process_data_all_absent:
  assumes "list_all (\<lambda>k. map_of kvs k = None)
      [''meterName'', ''consumerId'', ''scNum'', ''totalBillAmount'', ''totalDuesAmount'',
       ''meterAnalytics'']"
  shows "process_data (PDict kvs) =
     ([], PDict [(''meter_name'', PStr ''Unknown''), (''consumer_id'', PStr ''Unknown''),
           (''sc_num'', PStr ''Unknown''),
           (''total_bill_amount'', PFloat (Finite 0)),
           (''total_dues_amount'', PFloat (Finite 0)),
           (''meter_analytics'', PList [])])"
  using assms
  by (simp add: process_data_def process_body_def process_header_PDict float_overflow_pos)

lemma py_float_error_cases:
  "py_float v = Inl x \<Longrightarrow> x = ValueError \<or> x = TypeError \<or> x = OverflowError"
  by (cases v) (auto simp: float_of_string_def Let_def split: if_splits prod.splits option.splits)

lemma process_item_numbers_ok:
  assumes "list_all (\<lambda>k. case map_of kvs k of None \<Rightarrow> True | Some v \<Rightarrow> (\<exists>f. py_float v = Inr f))
      [''consumedUnits'', ''billAmt'', ''payableAmount'']"
  shows "\<exists>c b p. process_item (PDict kvs) =
       Inr (PDict
         [(''month'', case map_of kvs ''month'' of Some v \<Rightarrow> v | None \<Rightarrow> PStr ''Unknown''),
          (''status'', case map_of kvs ''status'' of Some v \<Rightarrow> v | None \<Rightarrow> PStr ''Unknown''),
          (''consumed_units'', PFloat c),
          (''bill_amount'', PFloat b),
          (''payable_amount'', PFloat p),
          (''rebate_amount'', PFloat (float_sub b p))])
     \<and> (map_of kvs ''consumedUnits'' = None \<longrightarrow> c = Finite 0)
     \<and> (map_of kvs ''billAmt'' = None \<longrightarrow> b = Finite 0)
     \<and> (map_of kvs ''payableAmount'' = None \<longrightarrow> p = Finite 0)"
proof -
  have num: "\<exists>f. py_float (case map_of kvs k of Some v \<Rightarrow> v | None \<Rightarrow> PInt 0) = Inr f
      \<and> (map_of kvs k = None \<longrightarrow> f = Finite 0)"
    if "case map_of kvs k of None \<Rightarrow> True | Some v \<Rightarrow> (\<exists>f. py_float v = Inr f)" for k
    using that by (cases "map_of kvs k") (auto simp: float_overflow_pos)
  from assms num [of "''consumedUnits''"] obtain c where
    c: "py_float (case map_of kvs ''consumedUnits'' of Some v \<Rightarrow> v | None \<Rightarrow> PInt 0) = Inr c"
      "map_of kvs ''consumedUnits'' = None \<longrightarrow> c = Finite 0"
    by auto
  from assms num [of "''billAmt''"] obtain b where
    b: "py_float (case map_of kvs ''billAmt'' of Some v \<Rightarrow> v | None \<Rightarrow> PInt 0) = Inr b"
      "map_of kvs ''billAmt'' = None \<longrightarrow> b = Finite 0"
    by auto
  from assms num [of "''payableAmount''"] obtain p where
    p: "py_float (case map_of kvs ''payableAmount'' of Some v \<Rightarrow> v | None \<Rightarrow> PInt 0) = Inr p"
      "map_of kvs ''payableAmount'' = None \<longrightarrow> p = Finite 0"
    by auto
  from c(1) b(1) p(1) have eq: "process_item (PDict kvs) =
       Inr (PDict
         [(''month'', case map_of kvs ''month'' of Some v \<Rightarrow> v | None \<Rightarrow> PStr ''Unknown''),
          (''status'', case map_of kvs ''status'' of Some v \<Rightarrow> v | None \<Rightarrow> PStr ''Unknown''),
          (''consumed_units'', PFloat c),
          (''bill_amount'', PFloat b),
          (''payable_amount'', PFloat p),
          (''rebate_amount'', PFloat (float_sub b p))])"
    by (simp add: process_item_PDict)
  show ?thesis
    apply (rule exI [of _ c], rule exI [of _ b], rule exI [of _ p])
    using eq c(2) b(2) p(2) by simp
qed

lemma dropped_present_field:
  assumes "dropped (PDict kvs)"
  shows "\<exists>k v. k \<in> set [''consumedUnits'', ''billAmt'', ''payableAmount'']
      \<and> map_of kvs k = Some v
      \<and> (py_float v = Inl ValueError \<or> py_float v = Inl TypeError)"
proof -
  let ?n = "\<lambda>k. py_float (case map_of kvs k of Some v \<Rightarrow> v | None \<Rightarrow> PInt 0)"
  have absent: "map_of kvs k \<noteq> None" if "?n k = Inl x" for k x
    using that by (cases "map_of kvs k") (auto simp: float_overflow_pos)
  from assms obtain x where x: "process_item (PDict kvs) = Inl x" "x = ValueError \<or> x = TypeError"
    by (auto simp: dropped_def)
  have "\<exists>k \<in> set [''consumedUnits'', ''billAmt'', ''payableAmount'']. ?n k = Inl x"
  proof (cases "?n ''consumedUnits''")
    case (Inl e)
    with x(1) show ?thesis by (simp add: process_item_PDict)
  next
    case c: (Inr c)
    show ?thesis
    proof (cases "?n ''billAmt''")
      case (Inl e)
      with c x(1) show ?thesis by (simp add: process_item_PDict)
    next
      case b: (Inr b)
      show ?thesis
      proof (cases "?n ''payableAmount''")
        case (Inl e)
        with c b x(1) show ?thesis by (simp add: process_item_PDict)
      next
        case (Inr p)
        with c b x(1) show ?thesis by (simp add: process_item_PDict)
      qed
    qed
  qed
  then obtain k where k: "k \<in> set [''consumedUnits'', ''billAmt'', ''payableAmount'']" "?n k = Inl x"
    by blast
  from absent [OF k(2)] obtain v where v: "map_of kvs k = Some v" by auto
  with k(2) have "py_float v = Inl x" by simp
  with k(1) v x(2) show ?thesis by blast
qed

lemma retained_in_record:
  assumes "process_header payload = Inr (hdr, items)" and "i \<in> set items"
    and "process_item i = Inr e" and "snd (process_data payload) = PDict rec"
  shows "e \<in> set (meter_analytics (PDict rec))"
proof -
  from assms(4) obtain hdr' items' where
    h: "process_header payload = Inr (hdr', items')"
    and s: "(if kept_entries items' \<noteq> [] then list_sort month_sort_key (kept_entries items')
        else Inr (kept_entries items')) = Inr (meter_analytics (PDict rec))"
    by (rule process_data_analytics)
  from h assms(1) have i: "items' = items" by simp
  from kept_entries_mem [OF assms(2,3)] have mem: "e \<in> set (kept_entries items)" .
  then have "kept_entries items \<noteq> []" by auto
  with s i have "list_sort month_sort_key (kept_entries items) = Inr (meter_analytics (PDict rec))"
    by simp
  from list_sort_props(1) [OF this] have "set (meter_analytics (PDict rec)) = set (kept_entries items)"
    by (metis set_mset_mset)
  with mem show ?thesis by simp
qed

lemma process_item_empty:
  "process_item (PDict []) =
     Inr (PDict [(''month'', PStr ''Unknown''), (''status'', PStr ''Unknown''),
        (''consumed_units'', PFloat (Finite 0)), (''bill_amount'', PFloat (Finite 0)),
        (''payable_amount'', PFloat (Finite 0)), (''rebate_amount'', PFloat (Finite 0))])"
  by (simp add: process_item_PDict float_overflow_pos to_float_def)

lemma process_item_sparse:
  "process_item example_sparse_entry =
     Inr (PDict [(''month'', PStr ''Magh/80''), (''status'', PStr ''Unknown''),
        (''consumed_units'', PFloat (Finite 0)), (''bill_amount'', PFloat (Finite 100)),
        (''payable_amount'', PFloat (Finite 0)), (''rebate_amount'', PFloat (Finite 100))])"
  by (simp add: example_sparse_entry_def process_item_PDict float_overflow_def to_float_def)

lemma process_data_sparse:
  "snd (process_data (example_payload [example_sparse_entry])) =
     PDict [(''meter_name'', PStr ''M-1''), (''consumer_id'', PInt 4711),
       (''sc_num'', PStr ''001.02.003''),
       (''total_bill_amount'', PFloat (Finite (5703 / 2))),
       (''total_dues_amount'', PFloat (Finite 0)),
       (''meter_analytics'',
          PList [PDict [(''month'', PStr ''Magh/80''), (''status'', PStr ''Unknown''),
            (''consumed_units'', PFloat (Finite 0)), (''bill_amount'', PFloat (Finite 100)),
            (''payable_amount'', PFloat (Finite 0)), (''rebate_amount'', PFloat (Finite 100))]])]"
proof -
  let ?e = "PDict [(''month'', PStr ''Magh/80''), (''status'', PStr ''Unknown''),
            (''consumed_units'', PFloat (Finite 0)), (''bill_amount'', PFloat (Finite 100)),
            (''payable_amount'', PFloat (Finite 0)), (''rebate_amount'', PFloat (Finite 100))]"
  have "dict_getitem ?e ''month'' = Inr (PStr (''Magh'' @ ''/'' @ ''80''))"
    by (simp add: dict_getitem_def)
  from month_sort_key_name_year [OF this] have k: "month_sort_key ?e = Inr (80, 9)"
    by (simp add: py_int_examples NEPALI_MONTHS_ORDER_def)
  show ?thesis
    by (simp add: process_data_snd process_header_example process_item_sparse list_sort_def k)
qed

section \<open>The properties of the specification\<close>

subsection \<open>C1: a failed cycle and the cached record\<close>

text \<open>
  C1, as the specification has it: after a poll cycle that fails, the record cached before
  it is still the coordinator's data and the sensors still report its values. The code does
  otherwise. Here a first poll succeeds and the bill sensor reports 2851.5; the next poll is
  answered with HTTP 401; after it the coordinator's data is \<^verbatim>\<open>None\<close> and the same
  sensor reports \<^verbatim>\<open>None\<close>.
\<close>

theorem C1_counterexample:
  "native_value ElectricityTotalBillSensor (snd (async_refresh new_coordinator (example_reply [])))
     = Inr (PFloat (Finite (5703 / 2)))
   \<and> native_value ElectricityTotalBillSensor
       (snd (async_refresh (snd (async_refresh new_coordinator (example_reply [])))
          (Response 401 (Inl OtherException))))
     = Inr PNone
   \<and> data (snd (async_refresh (snd (async_refresh new_coordinator (example_reply [])))
          (Response 401 (Inl OtherException))))
     = PNone"
  by (simp add: refresh_eq update_example_empty update_401 process_data_example_empty dict_get_def)

text \<open>
  C1, amended: for every poll cycle that fails (transport error, HTTP 401, another status
  that is not 200, empty payload, malformed data), \<^verbatim>\<open>_async_update_data\<close> logs an error
  and returns \<^verbatim>\<open>None\<close>; the refresh stores that \<^verbatim>\<open>None\<close> as the coordinator's data,
  whatever record was cached, and every sensor then reports \<^verbatim>\<open>None\<close> and the monthly
  sensor no attributes.
\<close>

theorem C1_failed_cycle_clears_data:
  assumes "failure_of r = Some k"
  shows "snd (async_update_data r) = Inr PNone
    \<and> fst (async_update_data r) \<noteq> []
    \<and> data (snd (async_refresh c r)) = PNone
    \<and> (\<forall>s. native_value s (snd (async_refresh c r)) = Inr PNone)
    \<and> extra_state_attributes (snd (async_refresh c r)) = Inr (PDict [])"
proof -
  from assms have u: "snd (async_update_data r) = Inr PNone" and l: "fst (async_update_data r) \<noteq> []"
    by (rule update_failed)+
  from u have d: "data (snd (async_refresh c r)) = PNone" by (simp add: refresh_eq)
  then have "\<forall>s. native_value s (snd (async_refresh c r)) = Inr PNone"
    by (simp add: native_value_None)
  moreover from d have "extra_state_attributes (snd (async_refresh c r)) = Inr (PDict [])"
    by (simp add: extra_state_attributes_def)
  ultimately show ?thesis using u l d by blast
qed

text \<open>C1, amended, at a poll answered with HTTP 401 after a poll that succeeded.\<close>

theorem C1_failed_cycle_clears_data_witness:
  "failure_of (Response 401 (Inl OtherException)) = Some Unauthorized
   \<and> data (snd (async_refresh new_coordinator (example_reply []))) \<noteq> PNone
   \<and> data (snd (async_refresh (snd (async_refresh new_coordinator (example_reply [])))
        (Response 401 (Inl OtherException)))) = PNone
   \<and> (\<forall>s. native_value s
        (snd (async_refresh (snd (async_refresh new_coordinator (example_reply [])))
           (Response 401 (Inl OtherException)))) = Inr PNone)"
proof -
  have h: "failure_of (Response 401 (Inl OtherException)) = Some Unauthorized"
    by (simp add: failure_of_def)
  have g: "data (snd (async_refresh new_coordinator (example_reply []))) \<noteq> PNone"
    by (simp add: refresh_eq update_example_empty process_data_example_empty)
  from C1_failed_cycle_clears_data [OF h, of "snd (async_refresh new_coordinator (example_reply []))"]
  show ?thesis using h g by simp
qed

subsection \<open>C2: the kinds of failure\<close>

text \<open>
  C2, as the specification has it: a response with HTTP 401 and a response with HTTP 200
  whose body has no truthy \<^verbatim>\<open>data\<close> yield two different tagged failures, which a
  caller can tell apart. In the code both cycles return the same value, \<^verbatim>\<open>None\<close>.
\<close>

theorem C2_counterexample:
  "snd (async_update_data (Response 401 (Inl OtherException))) = Inr PNone
   \<and> snd (async_update_data (Response 200 (Inr (PDict [(''data'', PNone)])))) = Inr PNone"
  by (simp add: update_401 update_empty_payload)

text \<open>
  C2, amended: a response with HTTP 401 logs that the authentication failed and returns
  \<^verbatim>\<open>None\<close>; a response with HTTP 200 whose body is an object without a truthy
  \<^verbatim>\<open>data\<close> logs that no data was received and returns \<^verbatim>\<open>None\<close>. The two cycles
  differ in the message logged, not in the value returned; a cycle that succeeds returns a
  dictionary, which is not \<^verbatim>\<open>None\<close>.
\<close>

theorem C2_failures_return_None:
  "async_update_data (Response 401 body) = ([AuthenticationFailed], Inr PNone)
   \<and> (\<not> truthy (case map_of kvs ''data'' of Some d \<Rightarrow> d | None \<Rightarrow> PNone) \<longrightarrow>
        async_update_data (Response 200 (Inr (PDict kvs))) = ([NoDataReceived], Inr PNone))
   \<and> (failure_of r = None \<longrightarrow> (\<exists>rec. snd (async_update_data r) = Inr (PDict rec)))"
  using update_401 update_empty_payload update_ok_dict by blast

text \<open>C2, amended, at a body whose \<^verbatim>\<open>data\<close> is null and at a reply that normalises.\<close>

theorem C2_failures_return_None_witness:
  "\<not> truthy (case map_of [(''data'', PNone)] ''data'' of Some d \<Rightarrow> d | None \<Rightarrow> PNone)
   \<and> async_update_data (Response 200 (Inr (PDict [(''data'', PNone)]))) = ([NoDataReceived], Inr PNone)
   \<and> async_update_data (Response 401 (Inl OtherException)) = ([AuthenticationFailed], Inr PNone)
   \<and> failure_of (example_reply []) = None
   \<and> (\<exists>rec. snd (async_update_data (example_reply [])) = Inr (PDict rec))"
proof -
  have h: "\<not> truthy (case map_of [(''data'', PNone)] ''data'' of Some d \<Rightarrow> d | None \<Rightarrow> PNone)"
    by simp
  from C2_failures_return_None [of "Inl OtherException" "[(''data'', PNone)]" "example_reply []"]
  show ?thesis using h failure_of_example_empty by blast
qed

subsection \<open>C3: the first poll and the later ones\<close>

text \<open>
  C3, as the specification has it: a first poll that fails raises out of the initial setup.
  In the code the request of the first poll raises a transport error, and
  \<^verbatim>\<open>async_setup_entry\<close> returns: the coordinator has no data and no sensor is added.
\<close>

theorem C3_counterexample:
  "snd (async_setup_entry (RequestRaises ClientError))
     = Inr (\<lparr>data = PNone, last_update_success = True\<rparr>, [])"
  by (simp add: setup_eq refresh_eq async_update_data_def fetch_def new_coordinator_def)

text \<open>
  C3, amended: no failure of a poll is raised, at the first poll or at a later one.
  \<^verbatim>\<open>async_setup_entry\<close> returns for every reply; when its first poll fails, the failure
  is logged, the coordinator's data is \<^verbatim>\<open>None\<close> and no sensor is added. A later poll
  that fails is logged, is not raised, counts as a successful update and sets the
  coordinator's data to \<^verbatim>\<open>None\<close>.
\<close>

theorem C3_no_poll_failure_raises:
  "(\<exists>c' sensors. snd (async_setup_entry r) = Inr (c', sensors))
   \<and> (failure_of r = Some k \<longrightarrow>
        fst (async_setup_entry r) \<noteq> []
        \<and> snd (async_setup_entry r) = Inr (\<lparr>data = PNone, last_update_success = True\<rparr>, []))
   \<and> (failure_of r = Some k \<longrightarrow>
        fst (async_refresh c r) \<noteq> []
        \<and> snd (async_refresh c r) = c\<lparr>data := PNone, last_update_success := True\<rparr>)"
proof -
  have a: "\<exists>c' sensors. snd (async_setup_entry r) = Inr (c', sensors)"
    by (simp add: setup_eq)
  have b: "fst (async_setup_entry r) \<noteq> []
        \<and> snd (async_setup_entry r) = Inr (\<lparr>data = PNone, last_update_success = True\<rparr>, [])
        \<and> fst (async_refresh c r) \<noteq> []
        \<and> snd (async_refresh c r) = c\<lparr>data := PNone, last_update_success := True\<rparr>"
    if "failure_of r = Some k"
  proof -
    from that have "snd (async_update_data r) = Inr PNone" "fst (async_update_data r) \<noteq> []"
      by (rule update_failed)+
    then show ?thesis by (simp add: setup_eq refresh_eq new_coordinator_def)
  qed
  from a b show ?thesis by blast
qed

text \<open>C3, amended, at a transport error: as the first poll, and after a poll that succeeded.\<close>

theorem C3_no_poll_failure_raises_witness:
  "failure_of (RequestRaises ClientError) = Some Transport
   \<and> async_setup_entry (RequestRaises ClientError)
       = ([ErrorFetching ClientError], Inr (\<lparr>data = PNone, last_update_success = True\<rparr>, []))
   \<and> data (snd (async_refresh new_coordinator (example_reply []))) \<noteq> PNone
   \<and> async_refresh (snd (async_refresh new_coordinator (example_reply []))) (RequestRaises ClientError)
       = ([ErrorFetching ClientError], \<lparr>data = PNone, last_update_success = True\<rparr>)"
proof -
  have h: "failure_of (RequestRaises ClientError) = Some Transport"
    by (simp add: failure_of_def)
  have l: "fst (async_update_data (RequestRaises ClientError)) = [ErrorFetching ClientError]"
    by (simp add: async_update_data_def fetch_def)
  have g: "data (snd (async_refresh new_coordinator (example_reply []))) \<noteq> PNone"
    by (simp add: refresh_eq update_example_empty process_data_example_empty)
  from C3_no_poll_failure_raises
    [of "RequestRaises ClientError" Transport "snd (async_refresh new_coordinator (example_reply []))"]
  show ?thesis using h l g
    by (simp add: setup_eq refresh_eq new_coordinator_def prod_eq_iff)
qed

subsection \<open>C4: the order of the monthly entries\<close>

text \<open>
  C4: whenever normalisation yields a record, its \<^verbatim>\<open>meter_analytics\<close> are the processed
  entries rearranged so that their keys ascend, and entries of equal key keep their order
  (the sort is stable). The key of an entry whose month is \<^verbatim>\<open>name/yy\<close> is the pair of
  the integer \<^verbatim>\<open>yy\<close> and the index of \<^verbatim>\<open>name\<close> in the calendar; the key of an entry
  whose month has no slash is (0, 0); pairs compare first by year, then by index; the
  calendar gives the twelve names the indices 0 to 11. The entries
  Chaitra/80, Baisakh/81, Poush/80 come out as Poush/80, Chaitra/80, Baisakh/81.
\<close>

theorem C4_sorted_by_year_and_month:
  "(snd (process_data payload) = PDict rec \<longrightarrow>
      (\<exists>keys. map_exc month_sort_key (meter_analytics (PDict rec)) = Inr keys \<and> sorted keys)
      \<and> (\<exists>hdr items. process_header payload = Inr (hdr, items)
            \<and> mset (meter_analytics (PDict rec)) = mset (kept_entries items)
            \<and> (\<forall>k. filter (\<lambda>e. month_sort_key e = Inr k) (meter_analytics (PDict rec))
                     = filter (\<lambda>e. month_sort_key e = Inr k) (kept_entries items))))
   \<and> (dict_getitem e ''month'' = Inr (PStr (name @ ''/'' @ yy))
        \<and> CHR ''/'' \<notin> set name \<and> CHR ''/'' \<notin> set yy
        \<and> py_int yy = Inr y \<and> list_index NEPALI_MONTHS_ORDER name = Inr i \<longrightarrow>
      month_sort_key e = Inr (y, int i))
   \<and> (dict_getitem e ''month'' = Inr (PStr s) \<and> CHR ''/'' \<notin> set s \<longrightarrow>
      month_sort_key e = Inr (0, 0))
   \<and> (\<forall>(y1::int) (m1::int) (y2::int) (m2::int). ((y1, m1) \<le> (y2, m2)) = (y1 < y2 \<or> y1 = y2 \<and> m1 \<le> m2))
   \<and> map (\<lambda>i. list_index NEPALI_MONTHS_ORDER (NEPALI_MONTHS_ORDER ! i)) [0 ..< 12]
        = map Inr [0 ..< 12]
   \<and> meter_analytics (snd (process_data
        (example_payload (map example_entry [''Chaitra/80'', ''Baisakh/81'', ''Poush/80'']))))
      = map processed_example [''Poush/80'', ''Chaitra/80'', ''Baisakh/81'']"
proof -
  have a: "(\<exists>keys. map_exc month_sort_key (meter_analytics (PDict rec)) = Inr keys \<and> sorted keys)
      \<and> (\<exists>hdr items. process_header payload = Inr (hdr, items)
            \<and> mset (meter_analytics (PDict rec)) = mset (kept_entries items)
            \<and> (\<forall>k. filter (\<lambda>e. month_sort_key e = Inr k) (meter_analytics (PDict rec))
                     = filter (\<lambda>e. month_sort_key e = Inr k) (kept_entries items)))"
    if "snd (process_data payload) = PDict rec"
  proof -
    from that obtain hdr items where
      h: "process_header payload = Inr (hdr, items)"
      and s: "(if kept_entries items \<noteq> [] then list_sort month_sort_key (kept_entries items)
        else Inr (kept_entries items)) = Inr (meter_analytics (PDict rec))"
      by (rule process_data_analytics)
    show ?thesis
    proof (cases "kept_entries items = []")
      case True
      with s have "meter_analytics (PDict rec) = []" by simp
      with True h show ?thesis by simp
    next
      case False
      with s have l: "list_sort month_sort_key (kept_entries items) = Inr (meter_analytics (PDict rec))"
        by simp
      from list_sort_props [OF l] h show ?thesis by blast
    qed
  qed
  have b: "month_sort_key e = Inr (y, int i)"
    if "dict_getitem e ''month'' = Inr (PStr (name @ ''/'' @ yy))"
      "CHR ''/'' \<notin> set name" "CHR ''/'' \<notin> set yy"
      "py_int yy = Inr y" "list_index NEPALI_MONTHS_ORDER name = Inr i"
    using month_sort_key_name_year [OF that(1,2,3)] that(4,5) by simp
  have c: "month_sort_key e = Inr (0, 0)"
    if "dict_getitem e ''month'' = Inr (PStr s)" "CHR ''/'' \<notin> set s"
    using month_sort_key_str [OF that(1)] that(2) by simp
  have d: "\<forall>(y1::int) (m1::int) (y2::int) (m2::int). ((y1, m1) \<le> (y2, m2)) = (y1 < y2 \<or> y1 = y2 \<and> m1 \<le> m2)"
    by auto
  have e: "map (\<lambda>i. list_index NEPALI_MONTHS_ORDER (NEPALI_MONTHS_ORDER ! i)) [0 ..< 12]
        = map Inr [0 ..< 12]"
    by (simp add: NEPALI_MONTHS_ORDER_def upt_rec numeral_eq_Suc)
  have f: "meter_analytics (snd (process_data
        (example_payload (map example_entry [''Chaitra/80'', ''Baisakh/81'', ''Poush/80'']))))
      = map processed_example [''Poush/80'', ''Chaitra/80'', ''Baisakh/81'']"
    by (simp only: process_data_example_three snd_conv)
       (simp add: meter_analytics_def dict_getitem_def)
  from a b c d e f show ?thesis by blast
qed

text \<open>C4 at the three entries of the example, at the key of Poush/80 and at a month without a slash.\<close>

theorem C4_sorted_by_year_and_month_witness:
  "snd (process_data
      (example_payload (map example_entry [''Chaitra/80'', ''Baisakh/81'', ''Poush/80''])))
     = PDict [(''meter_name'', PStr ''M-1''), (''consumer_id'', PInt 4711),
           (''sc_num'', PStr ''001.02.003''),
           (''total_bill_amount'', PFloat (Finite (5703 / 2))),
           (''total_dues_amount'', PFloat (Finite 0)),
           (''meter_analytics'',
              PList (map processed_example [''Poush/80'', ''Chaitra/80'', ''Baisakh/81'']))]
   \<and> (\<exists>keys. map_exc month_sort_key
          (map processed_example [''Poush/80'', ''Chaitra/80'', ''Baisakh/81'']) = Inr keys
        \<and> sorted keys)
   \<and> dict_getitem (processed_example ''Poush/80'') ''month'' = Inr (PStr (''Poush'' @ ''/'' @ ''80''))
   \<and> CHR ''/'' \<notin> set ''Poush'' \<and> CHR ''/'' \<notin> set ''80''
   \<and> py_int ''80'' = Inr 80 \<and> list_index NEPALI_MONTHS_ORDER ''Poush'' = Inr 8
   \<and> month_sort_key (processed_example ''Poush/80'') = Inr (80, 8)
   \<and> dict_getitem (processed_example ''Unknown'') ''month'' = Inr (PStr ''Unknown'')
   \<and> CHR ''/'' \<notin> set ''Unknown''
   \<and> month_sort_key (processed_example ''Unknown'') = Inr (0, 0)"
proof -
  let ?p = "example_payload (map example_entry [''Chaitra/80'', ''Baisakh/81'', ''Poush/80''])"
  let ?rec = "[(''meter_name'', PStr ''M-1''), (''consumer_id'', PInt 4711),
           (''sc_num'', PStr ''001.02.003''),
           (''total_bill_amount'', PFloat (Finite (5703 / 2))),
           (''total_dues_amount'', PFloat (Finite 0)),
           (''meter_analytics'',
              PList (map processed_example [''Poush/80'', ''Chaitra/80'', ''Baisakh/81'']))]"
  have h: "snd (process_data ?p) = PDict ?rec"
    by (simp only: process_data_example_three snd_conv)
  have m: "meter_analytics (PDict ?rec)
      = map processed_example [''Poush/80'', ''Chaitra/80'', ''Baisakh/81'']"
    by (simp add: meter_analytics_def dict_getitem_def)
  have g1: "dict_getitem (processed_example ''Poush/80'') ''month'' = Inr (PStr (''Poush'' @ ''/'' @ ''80''))"
    by simp
  have g2: "CHR ''/'' \<notin> set ''Poush''" "CHR ''/'' \<notin> set ''80''" "CHR ''/'' \<notin> set ''Unknown''"
    by simp_all
  have g3: "dict_getitem (processed_example ''Unknown'') ''month'' = Inr (PStr ''Unknown'')"
    by simp
  note t1 = C4_sorted_by_year_and_month
    [of ?p ?rec "processed_example ''Poush/80''" "''Poush''" "''80''" 80 8 "''x''"]
  note t2 = C4_sorted_by_year_and_month
    [of ?p ?rec "processed_example ''Unknown''" "''Poush''" "''80''" 80 8 "''Unknown''"]
  from t1 h have "\<exists>keys. map_exc month_sort_key (meter_analytics (PDict ?rec)) = Inr keys
        \<and> sorted keys"
    by blast
  then have k: "\<exists>keys. map_exc month_sort_key
          (map processed_example [''Poush/80'', ''Chaitra/80'', ''Baisakh/81'']) = Inr keys
        \<and> sorted keys"
    by (simp only: m)
  have n1: "py_int ''80'' = Inr 80" by (rule py_int_examples)
  have n2: "list_index NEPALI_MONTHS_ORDER ''Poush'' = Inr 8" by (rule month_index_examples)
  from t1 g1 g2 n1 n2
  have "month_sort_key (processed_example ''Poush/80'') = Inr (80, int 8)"
    by blast
  then have k1: "month_sort_key (processed_example ''Poush/80'') = Inr (80, 8)"
    by simp
  from t2 g3 g2 have k2: "month_sort_key (processed_example ''Unknown'') = Inr (0, 0)"
    by blast
  from h k g1 g2 g3 k1 k2 n1 n2 show ?thesis
    by blast
qed

subsection \<open>C5: entries whose numbers do not parse\<close>



subsection \<open>C6: defaults of the record\<close>

text \<open>
  C6, as the specification has it: a total that is present but does not parse is replaced
  by 0, and the cycle is kept. In the code a payload whose \<^verbatim>\<open>totalBillAmount\<close> is the
  string \<^verbatim>\<open>abc\<close> normalises to \<^verbatim>\<open>None\<close>: the cycle is lost.
\<close>

theorem C6_counterexample:
  "snd (process_data (PDict [(''meterName'', PStr ''M-1''), (''totalBillAmount'', PStr ''abc'')]))
     = PNone"
  by (simp add: process_data_snd process_header_PDict float_of_string_examples)

text \<open>
  C6, amended: in every record, \<^verbatim>\<open>meter_name\<close>, \<^verbatim>\<open>consumer_id\<close> and
  \<^verbatim>\<open>sc_num\<close> are the payload's values, or \<^verbatim>\<open>Unknown\<close> when the key is absent, and
  a total whose key is absent is 0; a payload with none of the keys normalises to the record
  of the defaults. A total that is present and that \<^verbatim>\<open>float\<close> does not convert makes
  the normalisation return \<^verbatim>\<open>None\<close>, unlike an entry's amount, which only drops the
  entry.
\<close>

theorem C6_defaults_for_absent_fields:
  "(snd (process_data (PDict kvs)) = PDict rec \<longrightarrow>
      map_of rec ''meter_name''
        = Some (case map_of kvs ''meterName'' of Some v \<Rightarrow> v | None \<Rightarrow> PStr ''Unknown'')
      \<and> map_of rec ''consumer_id''
        = Some (case map_of kvs ''consumerId'' of Some v \<Rightarrow> v | None \<Rightarrow> PStr ''Unknown'')
      \<and> map_of rec ''sc_num''
        = Some (case map_of kvs ''scNum'' of Some v \<Rightarrow> v | None \<Rightarrow> PStr ''Unknown'')
      \<and> (map_of kvs ''totalBillAmount'' = None \<longrightarrow>
            map_of rec ''total_bill_amount'' = Some (PFloat (Finite 0)))
      \<and> (map_of kvs ''totalDuesAmount'' = None \<longrightarrow>
            map_of rec ''total_dues_amount'' = Some (PFloat (Finite 0))))
   \<and> (list_all (\<lambda>k. map_of kvs k = None)
         [''meterName'', ''consumerId'', ''scNum'', ''totalBillAmount'', ''totalDuesAmount'',
          ''meterAnalytics''] \<longrightarrow>
       process_data (PDict kvs) =
         ([], PDict [(''meter_name'', PStr ''Unknown''), (''consumer_id'', PStr ''Unknown''),
           (''sc_num'', PStr ''Unknown''),
           (''total_bill_amount'', PFloat (Finite 0)),
           (''total_dues_amount'', PFloat (Finite 0)),
           (''meter_analytics'', PList [])]))
   \<and> ((map_of kvs ''totalBillAmount'' = Some v \<or> map_of kvs ''totalDuesAmount'' = Some v)
        \<and> py_float v = Inl err \<longrightarrow>
       snd (process_data (PDict kvs)) = PNone)"
proof -
  have c: "snd (process_data (PDict kvs)) = PNone"
    if "map_of kvs ''totalBillAmount'' = Some v \<or> map_of kvs ''totalDuesAmount'' = Some v"
      "py_float v = Inl err"
  proof -
    from process_header_float_error [OF that] obtain err' where
      "process_header (PDict kvs) = Inl err'" by blast
    then show ?thesis by (simp add: process_data_snd)
  qed
  from process_data_defaults [of kvs rec] process_data_all_absent [of kvs] c
  show ?thesis by blast
qed

text \<open>
  C6, amended, at a payload without any of the keys, at one whose \<^verbatim>\<open>totalDuesAmount\<close>
  is null, and at one with \<^verbatim>\<open>scNum\<close> alone.
\<close>

theorem C6_defaults_for_absent_fields_witness:
  "list_all (\<lambda>k. map_of [(''note'', PStr ''x'')] k = None)
         [''meterName'', ''consumerId'', ''scNum'', ''totalBillAmount'', ''totalDuesAmount'',
          ''meterAnalytics'']
   \<and> process_data (PDict [(''note'', PStr ''x'')]) =
         ([], PDict [(''meter_name'', PStr ''Unknown''), (''consumer_id'', PStr ''Unknown''),
           (''sc_num'', PStr ''Unknown''),
           (''total_bill_amount'', PFloat (Finite 0)),
           (''total_dues_amount'', PFloat (Finite 0)),
           (''meter_analytics'', PList [])])
   \<and> map_of [(''totalDuesAmount'', PNone)] ''totalDuesAmount'' = Some PNone
   \<and> py_float PNone = Inl TypeError
   \<and> snd (process_data (PDict [(''totalDuesAmount'', PNone)])) = PNone
   \<and> snd (process_data (PDict [(''scNum'', PInt 7)]))
       = PDict [(''meter_name'', PStr ''Unknown''), (''consumer_id'', PStr ''Unknown''),
           (''sc_num'', PInt 7),
           (''total_bill_amount'', PFloat (Finite 0)),
           (''total_dues_amount'', PFloat (Finite 0)),
           (''meter_analytics'', PList [])]
   \<and> map_of [(''meter_name'', PStr ''Unknown''), (''consumer_id'', PStr ''Unknown''),
           (''sc_num'', PInt 7),
           (''total_bill_amount'', PFloat (Finite 0)),
           (''total_dues_amount'', PFloat (Finite 0)),
           (''meter_analytics'', PList [])] ''meter_name'' = Some (PStr ''Unknown'')"
proof -
  have h1: "list_all (\<lambda>k. map_of [(''note'', PStr ''x'')] k = None)
         [''meterName'', ''consumerId'', ''scNum'', ''totalBillAmount'', ''totalDuesAmount'',
          ''meterAnalytics'']"
    by simp
  have h2: "map_of [(''totalDuesAmount'', PNone)] ''totalDuesAmount'' = Some PNone" by simp
  have h3: "py_float PNone = Inl TypeError" by simp
  have h4: "snd (process_data (PDict [(''scNum'', PInt 7)]))
       = PDict [(''meter_name'', PStr ''Unknown''), (''consumer_id'', PStr ''Unknown''),
           (''sc_num'', PInt 7),
           (''total_bill_amount'', PFloat (Finite 0)),
           (''total_dues_amount'', PFloat (Finite 0)),
           (''meter_analytics'', PList [])]"
    by (simp add: process_data_snd process_header_PDict float_overflow_pos)
  from C6_defaults_for_absent_fields [of "[(''note'', PStr ''x'')]"] h1
  have c1: "process_data (PDict [(''note'', PStr ''x'')]) =
         ([], PDict [(''meter_name'', PStr ''Unknown''), (''consumer_id'', PStr ''Unknown''),
           (''sc_num'', PStr ''Unknown''),
           (''total_bill_amount'', PFloat (Finite 0)),
           (''total_dues_amount'', PFloat (Finite 0)),
           (''meter_analytics'', PList [])])"
    by blast
  from C6_defaults_for_absent_fields [of "[(''totalDuesAmount'', PNone)]" _ PNone TypeError] h2 h3
  have c2: "snd (process_data (PDict [(''totalDuesAmount'', PNone)])) = PNone"
    by blast
  from C6_defaults_for_absent_fields [of "[(''scNum'', PInt 7)]"] h4
  have c3: "map_of [(''meter_name'', PStr ''Unknown''), (''consumer_id'', PStr ''Unknown''),
           (''sc_num'', PInt 7),
           (''total_bill_amount'', PFloat (Finite 0)),
           (''total_dues_amount'', PFloat (Finite 0)),
           (''meter_analytics'', PList [])] ''meter_name'' = Some (PStr ''Unknown'')"
    by simp
  from h1 c1 h2 h3 c2 h4 c3 show ?thesis by blast
qed

subsection \<open>C7: a whole record or none\<close>

text \<open>
  C7, as the specification has it: normalisation yields a fully valid record, all six fields
  populated, or a tagged failure. In the code a payload whose \<^verbatim>\<open>meterName\<close> is null
  normalises, without any log, to a record whose \<^verbatim>\<open>meter_name\<close> is \<^verbatim>\<open>None\<close>: not
  a record as the specification describes it, and not a failure; after a poll with this
  payload the sensor of the meter name reports \<^verbatim>\<open>None\<close>.
\<close>

theorem C7_counterexample:
  "process_data (PDict [(''meterName'', PNone)]) =
     ([], PDict [(''meter_name'', PNone), (''consumer_id'', PStr ''Unknown''),
        (''sc_num'', PStr ''Unknown''), (''total_bill_amount'', PFloat (Finite 0)),
        (''total_dues_amount'', PFloat (Finite 0)), (''meter_analytics'', PList [])])
   \<and> \<not> spec_normalized_record (snd (process_data (PDict [(''meterName'', PNone)])))
   \<and> native_value ElectricityMeterNameSensor
        (snd (async_refresh new_coordinator
           (Response 200 (Inr (PDict [(''data'', PDict [(''meterName'', PNone)])])))))
      = Inr PNone
   \<and> truthy (data (snd (async_refresh new_coordinator
           (Response 200 (Inr (PDict [(''data'', PDict [(''meterName'', PNone)])]))))))"
proof -
  have p: "process_data (PDict [(''meterName'', PNone)]) =
     ([], PDict [(''meter_name'', PNone), (''consumer_id'', PStr ''Unknown''),
        (''sc_num'', PStr ''Unknown''), (''total_bill_amount'', PFloat (Finite 0)),
        (''total_dues_amount'', PFloat (Finite 0)), (''meter_analytics'', PList [])])"
    by (simp add: process_data_def process_body_def process_header_PDict float_overflow_pos)
  have u: "async_update_data (Response 200 (Inr (PDict [(''data'', PDict [(''meterName'', PNone)])])))
      = ([], Inr (snd (process_data (PDict [(''meterName'', PNone)]))))"
    by (simp add: async_update_data_def fetch_def dict_get_def dict_getitem_def p)
  have n: "\<not> spec_normalized_record (snd (process_data (PDict [(''meterName'', PNone)])))"
    by (simp add: p spec_normalized_record_def is_str_def)
  have s: "native_value ElectricityMeterNameSensor
        (snd (async_refresh new_coordinator
           (Response 200 (Inr (PDict [(''data'', PDict [(''meterName'', PNone)])])))))
      = Inr PNone"
    by (simp add: refresh_eq u p dict_get_def)
  have t: "truthy (data (snd (async_refresh new_coordinator
           (Response 200 (Inr (PDict [(''data'', PDict [(''meterName'', PNone)])]))))))"
    by (simp add: refresh_eq u p)
  from p n s t show ?thesis by (intro conjI)
qed

text \<open>
  C7, amended: for every payload, normalisation yields either \<^verbatim>\<open>None\<close> (without a tag)
  or a dictionary with all six keys at once, never one with a key missing or with a part of
  the entries: \<^verbatim>\<open>meter_name\<close>, \<^verbatim>\<open>consumer_id\<close> and \<^verbatim>\<open>sc_num\<close> hold what the
  payload holds under their keys (any value, null too) or \<^verbatim>\<open>Unknown\<close> when the key is
  absent, the two totals hold the floats that \<^verbatim>\<open>float\<close> makes of the payload's totals
  (0 when absent), and \<^verbatim>\<open>meter_analytics\<close> holds every entry that processes, each with
  its six keys. What a poll returns, and what the coordinator then holds, is \<^verbatim>\<open>None\<close> or
  such a dictionary.
\<close>

theorem C7_whole_record_or_None:
  "(snd (process_data payload) = PNone
    \<or> (\<exists>kvs tb td items an.
          payload = PDict kvs
          \<and> py_float (case map_of kvs ''totalBillAmount'' of Some v \<Rightarrow> v | None \<Rightarrow> PInt 0) = Inr tb
          \<and> py_float (case map_of kvs ''totalDuesAmount'' of Some v \<Rightarrow> v | None \<Rightarrow> PInt 0) = Inr td
          \<and> py_iter (case map_of kvs ''meterAnalytics'' of Some v \<Rightarrow> v | None \<Rightarrow> PList []) = Inr items
          \<and> mset an = mset (kept_entries items)
          \<and> list_all is_monthly_entry an
          \<and> snd (process_data payload) =
              PDict
               [(''meter_name'', case map_of kvs ''meterName'' of Some v \<Rightarrow> v | None \<Rightarrow> PStr ''Unknown''),
                (''consumer_id'', case map_of kvs ''consumerId'' of Some v \<Rightarrow> v | None \<Rightarrow> PStr ''Unknown''),
                (''sc_num'', case map_of kvs ''scNum'' of Some v \<Rightarrow> v | None \<Rightarrow> PStr ''Unknown''),
                (''total_bill_amount'', PFloat tb),
                (''total_dues_amount'', PFloat td),
                (''meter_analytics'', PList an)]))
   \<and> (\<exists>v. snd (async_update_data r) = Inr v
          \<and> data (snd (async_refresh c r)) = v
          \<and> (v = PNone \<or> (\<exists>d. v = snd (process_data d) \<and> record_shape v)))"
proof -
  have a: "\<exists>kvs tb td items an.
          payload = PDict kvs
          \<and> py_float (case map_of kvs ''totalBillAmount'' of Some v \<Rightarrow> v | None \<Rightarrow> PInt 0) = Inr tb
          \<and> py_float (case map_of kvs ''totalDuesAmount'' of Some v \<Rightarrow> v | None \<Rightarrow> PInt 0) = Inr td
          \<and> py_iter (case map_of kvs ''meterAnalytics'' of Some v \<Rightarrow> v | None \<Rightarrow> PList []) = Inr items
          \<and> mset an = mset (kept_entries items)
          \<and> list_all is_monthly_entry an
          \<and> snd (process_data payload) =
              PDict
               [(''meter_name'', case map_of kvs ''meterName'' of Some v \<Rightarrow> v | None \<Rightarrow> PStr ''Unknown''),
                (''consumer_id'', case map_of kvs ''consumerId'' of Some v \<Rightarrow> v | None \<Rightarrow> PStr ''Unknown''),
                (''sc_num'', case map_of kvs ''scNum'' of Some v \<Rightarrow> v | None \<Rightarrow> PStr ''Unknown''),
                (''total_bill_amount'', PFloat tb),
                (''total_dues_amount'', PFloat td),
                (''meter_analytics'', PList an)]"
    if n: "snd (process_data payload) \<noteq> PNone"
  proof -
    from process_data_not_None [OF n] obtain rec where rec: "snd (process_data payload) = PDict rec"
      by blast
    then obtain hdr items an where
      h: "process_header payload = Inr (hdr, items)"
      and s: "(if kept_entries items \<noteq> [] then list_sort month_sort_key (kept_entries items)
        else Inr (kept_entries items)) = Inr an"
      and r: "rec = hdr @ [(''meter_analytics'', PList an)]"
      by (rule process_data_PDict)
    have m: "mset an = mset (kept_entries items)"
    proof (cases "kept_entries items = []")
      case True
      with s show ?thesis by simp
    next
      case False
      with s have "list_sort month_sort_key (kept_entries items) = Inr an" by simp
      then show ?thesis by (rule list_sort_props(1))
    qed
    then have "set an = set (kept_entries items)" by (metis set_mset_mset)
    with kept_entries_entries [of items] have e: "list_all is_monthly_entry an"
      by (simp add: list_all_iff)
    from h obtain kvs tb td where
      k: "payload = PDict kvs"
      and tb: "py_float (case map_of kvs ''totalBillAmount'' of Some v \<Rightarrow> v | None \<Rightarrow> PInt 0) = Inr tb"
      and td: "py_float (case map_of kvs ''totalDuesAmount'' of Some v \<Rightarrow> v | None \<Rightarrow> PInt 0) = Inr td"
      and it: "py_iter (case map_of kvs ''meterAnalytics'' of Some v \<Rightarrow> v | None \<Rightarrow> PList []) = Inr items"
      and hdr: "hdr =
       [(''meter_name'', case map_of kvs ''meterName'' of Some v \<Rightarrow> v | None \<Rightarrow> PStr ''Unknown''),
        (''consumer_id'', case map_of kvs ''consumerId'' of Some v \<Rightarrow> v | None \<Rightarrow> PStr ''Unknown''),
        (''sc_num'', case map_of kvs ''scNum'' of Some v \<Rightarrow> v | None \<Rightarrow> PStr ''Unknown''),
        (''total_bill_amount'', PFloat tb),
        (''total_dues_amount'', PFloat td)]"
      by (rule process_header_fields)
    from rec r hdr have v: "snd (process_data payload) =
              PDict
               [(''meter_name'', case map_of kvs ''meterName'' of Some v \<Rightarrow> v | None \<Rightarrow> PStr ''Unknown''),
                (''consumer_id'', case map_of kvs ''consumerId'' of Some v \<Rightarrow> v | None \<Rightarrow> PStr ''Unknown''),
                (''sc_num'', case map_of kvs ''scNum'' of Some v \<Rightarrow> v | None \<Rightarrow> PStr ''Unknown''),
                (''total_bill_amount'', PFloat tb),
                (''total_dues_amount'', PFloat td),
                (''meter_analytics'', PList an)]"
      by simp
    show ?thesis
      apply (rule exI [of _ kvs], rule exI [of _ tb], rule exI [of _ td])
      apply (rule exI [of _ items], rule exI [of _ an])
      using k tb td it m e v by (intro conjI)
  qed
  have b: "\<exists>v. snd (async_update_data r) = Inr v
          \<and> data (snd (async_refresh c r)) = v
          \<and> (v = PNone \<or> (\<exists>d. v = snd (process_data d) \<and> record_shape v))"
  proof (cases "failure_of r")
    case None
    then obtain kvs d where u: "async_update_data r = (fst (process_data d), Inr (snd (process_data d)))"
      and n: "snd (process_data d) \<noteq> PNone"
      by (rule update_ok)
    from process_data_record [of d] n have "record_shape (snd (process_data d))" by simp
    with u show ?thesis by (auto simp: refresh_eq)
  next
    case (Some k)
    then have "snd (async_update_data r) = Inr PNone" by (rule update_failed)
    then show ?thesis by (simp add: refresh_eq)
  qed
  from a b show ?thesis by blast
qed

subsection \<open>C9: a month that the sort cannot key\<close>

text \<open>
  C9: when an entry whose numeric fields all parse has a month with a slash, and the name
  before the slash is not in the calendar or the text after it is not an integer, the key
  of the sort raises, the outer handler logs it, and normalisation returns \<^verbatim>\<open>None\<close>
  for the whole payload.
\<close>

theorem C9_bad_month_fails_cycle:
  assumes "process_header payload = Inr (hdr, items)"
    and "i \<in> set items"
    and "process_item i = Inr e"
    and "dict_getitem e ''month'' = Inr (PStr s)"
    and "CHR ''/'' \<in> set s"
    and "list_index NEPALI_MONTHS_ORDER (split_on CHR ''/'' s ! 0) = Inl ValueError
         \<or> py_int (split_on CHR ''/'' s ! 1) = Inl ValueError"
  shows "snd (process_data payload) = PNone \<and> fst (process_data payload) \<noteq> []"
proof -
  from month_sort_key_str [OF assms(4)] assms(5,6)
  have bad: "month_sort_key e = Inl ValueError"
    by (auto simp: pbind_def split: sum.splits dest: py_int_error list_index_error)
  have "snd (process_data payload) = PNone"
  proof (cases "snd (analytics_loop items [] [])")
    case (Inl err)
    with assms(1) show ?thesis by (simp add: process_data_snd)
  next
    case (Inr acc)
    from loop_Inr [OF Inr] have acc: "acc = kept_entries items" by simp
    from kept_entries_mem [OF assms(2,3)] acc have mem: "e \<in> set acc" by simp
    then have ne: "acc \<noteq> []" by auto
    have "\<exists>err. list_sort month_sort_key acc = Inl err"
    proof (cases "list_sort month_sort_key acc")
      case (Inl err)
      then show ?thesis by simp
    next
      case r: (Inr ys)
      then obtain ks where "map_exc month_sort_key acc = Inr ks"
        by (auto simp: list_sort_def pbind_eq_Inr)
      then have "map month_sort_key acc = map Inr ks" by (simp add: map_exc_Inr)
      with mem have "month_sort_key e \<in> set (map Inr ks)"
        by (metis image_eqI set_map)
      with bad show ?thesis by auto
    qed
    with Inr ne assms(1) show ?thesis by (auto simp: process_data_snd)
  qed
  with process_data_PNone_log [of payload] show ?thesis by simp
qed

text \<open>
  C9 at a payload with the entries Poush/80 and Foo/81: it normalises to \<^verbatim>\<open>None\<close>,
  while the payload with Poush/80 alone yields a record.
\<close>

theorem C9_bad_month_fails_cycle_witness:
  "process_header (example_payload (map example_entry [''Poush/80'', ''Foo/81'']))
     = Inr ([(''meter_name'', PStr ''M-1''), (''consumer_id'', PInt 4711),
           (''sc_num'', PStr ''001.02.003''),
           (''total_bill_amount'', PFloat (Finite (5703 / 2))),
           (''total_dues_amount'', PFloat (Finite 0))],
          map example_entry [''Poush/80'', ''Foo/81''])
   \<and> example_entry ''Foo/81'' \<in> set (map example_entry [''Poush/80'', ''Foo/81''])
   \<and> process_item (example_entry ''Foo/81'') = Inr (processed_example ''Foo/81'')
   \<and> dict_getitem (processed_example ''Foo/81'') ''month'' = Inr (PStr ''Foo/81'')
   \<and> CHR ''/'' \<in> set ''Foo/81''
   \<and> list_index NEPALI_MONTHS_ORDER (split_on CHR ''/'' ''Foo/81'' ! 0) = Inl ValueError
   \<and> process_data (example_payload (map example_entry [''Poush/80'', ''Foo/81'']))
       = ([ErrorProcessingData ValueError], PNone)
   \<and> meter_analytics (snd (process_data (example_payload (map example_entry [''Poush/80'']))))
       = [processed_example ''Poush/80'']"
proof -
  let ?items = "map example_entry [''Poush/80'', ''Foo/81'']"
  have h1: "process_header (example_payload ?items)
     = Inr ([(''meter_name'', PStr ''M-1''), (''consumer_id'', PInt 4711),
           (''sc_num'', PStr ''001.02.003''),
           (''total_bill_amount'', PFloat (Finite (5703 / 2))),
           (''total_dues_amount'', PFloat (Finite 0))], ?items)"
    by (rule process_header_example)
  have h2: "example_entry ''Foo/81'' \<in> set ?items" by simp
  have h3: "process_item (example_entry ''Foo/81'') = Inr (processed_example ''Foo/81'')"
    by (rule process_item_example)
  have h4: "dict_getitem (processed_example ''Foo/81'') ''month'' = Inr (PStr ''Foo/81'')"
    by simp
  have h5: "CHR ''/'' \<in> set ''Foo/81''" by simp
  have h6: "list_index NEPALI_MONTHS_ORDER (split_on CHR ''/'' ''Foo/81'' ! 0) = Inl ValueError"
    by (simp add: NEPALI_MONTHS_ORDER_def)
  from h6 have h6': "list_index NEPALI_MONTHS_ORDER (split_on CHR ''/'' ''Foo/81'' ! 0) = Inl ValueError
         \<or> py_int (split_on CHR ''/'' ''Foo/81'' ! 1) = Inl ValueError" by (rule disjI1)
  have ok: "meter_analytics (snd (process_data (example_payload (map example_entry [''Poush/80'']))))
       = [processed_example ''Poush/80'']"
    by (simp add: process_data_def process_body_def process_header_example
        loop_examples [of "[''Poush/80'']" "[]" "[]", simplified]
        list_sort_def month_sort_key_examples meter_analytics_def dict_getitem_def)
  from C9_bad_month_fails_cycle [OF h1 h2 h3 h4 h5 h6']
  have "snd (process_data (example_payload ?items)) = PNone" by simp
  with h1 h2 h3 h4 h5 h6 ok process_data_example_bad_month show ?thesis by simp
qed

subsection \<open>C10: an entry without a numeric key\<close>

text \<open>
  C10: an entry (a JSON object) in which each of \<^verbatim>\<open>consumedUnits\<close>, \<^verbatim>\<open>billAmt\<close> and
  \<^verbatim>\<open>payableAmount\<close> is absent or converts is processed, not dropped: an absent amount
  is 0 and the rebate is computed from the amounts so obtained (with all three absent, all
  four are 0). An entry is dropped only when one of the three is present and its conversion
  raises \<^verbatim>\<open>ValueError\<close> or \<^verbatim>\<open>TypeError\<close>. A processed entry is in the
  \<^verbatim>\<open>meter_analytics\<close> of the record that the cycle yields.
\<close>

theorem C10_absent_numeric_key_defaults:
  "(list_all (\<lambda>k. case map_of kvs k of None \<Rightarrow> True | Some v \<Rightarrow> (\<exists>f. py_float v = Inr f))
      [''consumedUnits'', ''billAmt'', ''payableAmount''] \<longrightarrow>
    (\<exists>c b p. process_item (PDict kvs) =
       Inr (PDict
         [(''month'', case map_of kvs ''month'' of Some v \<Rightarrow> v | None \<Rightarrow> PStr ''Unknown''),
          (''status'', case map_of kvs ''status'' of Some v \<Rightarrow> v | None \<Rightarrow> PStr ''Unknown''),
          (''consumed_units'', PFloat c),
          (''bill_amount'', PFloat b),
          (''payable_amount'', PFloat p),
          (''rebate_amount'', PFloat (float_sub b p))])
     \<and> (map_of kvs ''consumedUnits'' = None \<longrightarrow> c = Finite 0)
     \<and> (map_of kvs ''billAmt'' = None \<longrightarrow> b = Finite 0)
     \<and> (map_of kvs ''payableAmount'' = None \<longrightarrow> p = Finite 0)))
   \<and> (dropped (PDict kvs) \<longrightarrow>
        (\<exists>k v. k \<in> set [''consumedUnits'', ''billAmt'', ''payableAmount'']
           \<and> map_of kvs k = Some v
           \<and> (py_float v = Inl ValueError \<or> py_float v = Inl TypeError)))
   \<and> (process_header payload = Inr (hdr, items) \<and> i \<in> set items \<and> process_item i = Inr e
        \<and> snd (process_data payload) = PDict rec \<longrightarrow>
      e \<in> set (meter_analytics (PDict rec)))
   \<and> process_item (PDict []) =
       Inr (PDict [(''month'', PStr ''Unknown''), (''status'', PStr ''Unknown''),
          (''consumed_units'', PFloat (Finite 0)), (''bill_amount'', PFloat (Finite 0)),
          (''payable_amount'', PFloat (Finite 0)), (''rebate_amount'', PFloat (Finite 0))])"
  using process_item_numbers_ok [of kvs] dropped_present_field [of kvs]
    retained_in_record [of payload hdr items i e rec] process_item_empty
  by blast

text \<open>
  C10 at an entry with a month and a bill amount only, at an entry whose consumed units are
  the string \<^verbatim>\<open>abc\<close>, and at the payload with the first entry.
\<close>

theorem C10_absent_numeric_key_defaults_witness:
  "list_all (\<lambda>k. case map_of [(''month'', PStr ''Magh/80''), (''billAmt'', PInt 100)] k of
        None \<Rightarrow> True | Some v \<Rightarrow> (\<exists>f. py_float v = Inr f))
      [''consumedUnits'', ''billAmt'', ''payableAmount'']
   \<and> (\<exists>b. process_item (PDict [(''month'', PStr ''Magh/80''), (''billAmt'', PInt 100)]) =
       Inr (PDict [(''month'', PStr ''Magh/80''), (''status'', PStr ''Unknown''),
          (''consumed_units'', PFloat (Finite 0)), (''bill_amount'', PFloat b),
          (''payable_amount'', PFloat (Finite 0)),
          (''rebate_amount'', PFloat (float_sub b (Finite 0)))]))
   \<and> dropped example_bad_entry
   \<and> (\<exists>k v. k \<in> set [''consumedUnits'', ''billAmt'', ''payableAmount'']
         \<and> map_of [(''month'', PStr ''Magh/80''), (''status'', PStr ''PAID''),
              (''consumedUnits'', PStr ''abc''), (''billAmt'', PInt 100),
              (''payableAmount'', PInt 100)] k = Some v
         \<and> (py_float v = Inl ValueError \<or> py_float v = Inl TypeError))
   \<and> process_header (example_payload [example_sparse_entry])
       = Inr ([(''meter_name'', PStr ''M-1''), (''consumer_id'', PInt 4711),
           (''sc_num'', PStr ''001.02.003''),
           (''total_bill_amount'', PFloat (Finite (5703 / 2))),
           (''total_dues_amount'', PFloat (Finite 0))], [example_sparse_entry])
   \<and> example_sparse_entry \<in> set [example_sparse_entry]
   \<and> process_item example_sparse_entry =
       Inr (PDict [(''month'', PStr ''Magh/80''), (''status'', PStr ''Unknown''),
          (''consumed_units'', PFloat (Finite 0)), (''bill_amount'', PFloat (Finite 100)),
          (''payable_amount'', PFloat (Finite 0)), (''rebate_amount'', PFloat (Finite 100))])
   \<and> PDict [(''month'', PStr ''Magh/80''), (''status'', PStr ''Unknown''),
          (''consumed_units'', PFloat (Finite 0)), (''bill_amount'', PFloat (Finite 100)),
          (''payable_amount'', PFloat (Finite 0)), (''rebate_amount'', PFloat (Finite 100))]
       \<in> set (meter_analytics (snd (process_data (example_payload [example_sparse_entry]))))"
proof -
  let ?kvs = "[(''month'', PStr ''Magh/80''), (''billAmt'', PInt 100)]"
  let ?bad = "[(''month'', PStr ''Magh/80''), (''status'', PStr ''PAID''),
              (''consumedUnits'', PStr ''abc''), (''billAmt'', PInt 100),
              (''payableAmount'', PInt 100)]"
  let ?e = "PDict [(''month'', PStr ''Magh/80''), (''status'', PStr ''Unknown''),
          (''consumed_units'', PFloat (Finite 0)), (''bill_amount'', PFloat (Finite 100)),
          (''payable_amount'', PFloat (Finite 0)), (''rebate_amount'', PFloat (Finite 100))]"
  let ?hdr = "[(''meter_name'', PStr ''M-1''), (''consumer_id'', PInt 4711),
           (''sc_num'', PStr ''001.02.003''),
           (''total_bill_amount'', PFloat (Finite (5703 / 2))),
           (''total_dues_amount'', PFloat (Finite 0))]"
  let ?rec = "?hdr @ [(''meter_analytics'', PList [?e])]"
  have h1: "list_all (\<lambda>k. case map_of ?kvs k of None \<Rightarrow> True | Some v \<Rightarrow> (\<exists>f. py_float v = Inr f))
      [''consumedUnits'', ''billAmt'', ''payableAmount'']"
    by (simp add: float_overflow_def)
  have h2: "dropped (PDict ?bad)"
    using dropped_example_bad_entry by (simp add: example_bad_entry_def)
  have h3: "process_header (example_payload [example_sparse_entry]) = Inr (?hdr, [example_sparse_entry])"
    by (rule process_header_example)
  have h4: "example_sparse_entry \<in> set [example_sparse_entry]" by simp
  have h5: "process_item example_sparse_entry = Inr ?e" by (rule process_item_sparse)
  have h6: "snd (process_data (example_payload [example_sparse_entry])) = PDict ?rec"
    by (simp add: process_data_sparse)
  note t1 = C10_absent_numeric_key_defaults
    [of ?kvs "example_payload [example_sparse_entry]" ?hdr "[example_sparse_entry]"
      example_sparse_entry ?e ?rec]
  note t2 = C10_absent_numeric_key_defaults
    [of ?bad "example_payload [example_sparse_entry]" ?hdr "[example_sparse_entry]"
      example_sparse_entry ?e ?rec]
  from mp [OF conjunct1 [OF t1] h1]
  have c1: "\<exists>b. process_item (PDict ?kvs) =
       Inr (PDict [(''month'', PStr ''Magh/80''), (''status'', PStr ''Unknown''),
          (''consumed_units'', PFloat (Finite 0)), (''bill_amount'', PFloat b),
          (''payable_amount'', PFloat (Finite 0)),
          (''rebate_amount'', PFloat (float_sub b (Finite 0)))])"
    by (elim exE conjE) auto
  from mp [OF conjunct1 [OF conjunct2 [OF t2]] h2]
  have c2: "\<exists>k v. k \<in> set [''consumedUnits'', ''billAmt'', ''payableAmount'']
         \<and> map_of ?bad k = Some v
         \<and> (py_float v = Inl ValueError \<or> py_float v = Inl TypeError)" .
  from h3 h4 h5 h6 have "process_header (example_payload [example_sparse_entry])
        = Inr (?hdr, [example_sparse_entry])
      \<and> example_sparse_entry \<in> set [example_sparse_entry]
      \<and> process_item example_sparse_entry = Inr ?e
      \<and> snd (process_data (example_payload [example_sparse_entry])) = PDict ?rec"
    by (intro conjI)
  from mp [OF conjunct1 [OF conjunct2 [OF conjunct2 [OF t1]]] this]
  have "?e \<in> set (meter_analytics (PDict ?rec))" .
  with h6 have c3: "?e \<in> set (meter_analytics (snd (process_data (example_payload [example_sparse_entry]))))"
    by (simp only:)
  from h1 c1 dropped_example_bad_entry c2 h3 h4 h5 c3 show ?thesis by (intro conjI)
qed

end
